theory Spec2Isabelle
  imports Main
begin

section \<open>Go library functions used by library.go\<close>

subsection \<open>Errors: fmt.Errorf, Unwrap, errors.Is\<close>

text \<open>
  A Go error built by \<open>fmt.Errorf\<close> is kept as its format string and its operands, a
  string or an error each. Whether it wraps an operand is decided, as in Go, by the verb
  of the format string that the operand meets: \<open>%w\<close> wraps, \<open>%s\<close> only prints.
  \<open>PathError\<close> is the error of a failed \<open>os.ReadDir\<close> (operation, path, cause);
  the system error under it is kept as its text, since it matches no error of library.go.
  A nil error is \<open>None\<close> of \<open>error option\<close>.
\<close>

datatype operand = Str string | Err error
  and error = Errorf string "operand list" | PathError string string string

text \<open>The verbs of a format string, in order (\<open>%%\<close> is a literal percent sign).\<close>

fun verbs :: "string \<Rightarrow> char list" where
  "verbs [] = []"
| "verbs [c] = []"
| "verbs (c # v # cs) =
     (if c = CHR ''%'' then (if v = CHR ''%'' then verbs cs else v # verbs cs)
      else verbs (v # cs))"

text \<open>The operand under the first \<open>%w\<close> verb, when it is an error.\<close>

fun wrapped :: "char list \<Rightarrow> operand list \<Rightarrow> error option" where
  "wrapped [] as = None"
| "wrapped (v # vs) [] = None"
| "wrapped (v # vs) (a # as) =
     (if v = CHR ''w'' then (case a of Err e \<Rightarrow> Some e | Str s \<Rightarrow> wrapped vs as)
      else wrapped vs as)"

fun Unwrap :: "error \<Rightarrow> error option" where
  "Unwrap (Errorf f as) = wrapped (verbs f) as"
| "Unwrap (PathError op p c) = None"

text \<open>
  \<open>errors.Is\<close> on a non-nil error: walk the chain of \<open>Unwrap\<close>, comparing each link
  with the target. The errors of library.go are built once each, so that comparing the
  values compares the identities.
\<close>

function errors_Is :: "error \<Rightarrow> error \<Rightarrow> bool" where
  "errors_Is err target =
     (if err = target then True
      else (case Unwrap err of None \<Rightarrow> False | Some e \<Rightarrow> errors_Is e target))"
  by pat_completeness auto
termination
proof (relation "measure (\<lambda>(err, target). size err)")
  fix err target :: error and e
  assume u: "Unwrap err = Some e"
  have w: "wrapped vs as = Some e \<Longrightarrow> size e < Suc (size_list size as)" for vs as
  proof (induction vs as rule: wrapped.induct)
    case (3 v vs a as)
    then show ?case
      by (cases a) (auto split: if_splits)
  qed simp_all
  from u have "size e < size err"
    by (cases err) (auto dest: w)
  then show "((e, target), (err, target)) \<in> measure (\<lambda>(err, target). size err)"
    by simp
qed simp

text \<open>The end of the chain of \<open>Unwrap\<close>: the error that started the failure.\<close>

function cause :: "error \<Rightarrow> error" where
  "cause err = (case Unwrap err of None \<Rightarrow> err | Some e \<Rightarrow> cause e)"
  by pat_completeness auto
termination
proof (relation "measure size")
  fix err e :: error
  assume u: "Unwrap err = Some e"
  have w: "wrapped vs as = Some e \<Longrightarrow> size e < Suc (size_list size as)" for vs as
  proof (induction vs as rule: wrapped.induct)
    case (3 v vs a as)
    then show ?case
      by (cases a) (auto split: if_splits)
  qed simp_all
  from u have "size e < size err"
    by (cases err) (auto dest: w)
  then show "(e, err) \<in> measure size"
    by simp
qed simp

subsection \<open>strings.Cut\<close>

fun Index :: "string \<Rightarrow> string \<Rightarrow> nat option" where
  "Index [] sep = (if sep = [] then Some 0 else None)"
| "Index (c # cs) sep =
     (if take (length sep) (c # cs) = sep then Some 0
      else map_option Suc (Index cs sep))"

definition Cut :: "string \<Rightarrow> string \<Rightarrow> string \<times> string \<times> bool" where
  "Cut s sep =
     (case Index s sep of
        None \<Rightarrow> (s, [], False)
      | Some i \<Rightarrow> (take i s, drop (i + length sep) s, True))"

subsection \<open>path/filepath on Unix: Clean, Join, Base, IsAbs\<close>

text \<open>The elements of a path between its separators.\<close>

fun split_path :: "string \<Rightarrow> string \<Rightarrow> string list" where
  "split_path [] cur = [cur]"
| "split_path (c # cs) cur =
     (if c = CHR ''/'' then cur # split_path cs [] else split_path cs (cur @ [c]))"

text \<open>
  \<open>Clean\<close> works through the elements with the output kept as a stack, last element
  first: empty elements and \<open>.\<close> are dropped, \<open>..\<close> removes the element before it when
  there is one to remove, is dropped at the root of a rooted path, and is kept otherwise.
\<close>

fun clean_elems :: "bool \<Rightarrow> string list \<Rightarrow> string list \<Rightarrow> string list" where
  "clean_elems rooted [] out = rev out"
| "clean_elems rooted (e # es) out =
     (if e = [] \<or> e = ''.'' then clean_elems rooted es out
      else if e = ''..'' then
        (case out of
           [] \<Rightarrow> clean_elems rooted es (if rooted then [] else [''..''])
         | t # ts \<Rightarrow>
             (if t = ''..'' then clean_elems rooted es (''..'' # out)
              else clean_elems rooted es ts))
      else clean_elems rooted es (e # out))"

fun join_elems :: "string list \<Rightarrow> string" where
  "join_elems [] = []"
| "join_elems [e] = e"
| "join_elems (e # es) = e @ ''/'' @ join_elems es"

definition Clean :: "string \<Rightarrow> string" where
  "Clean p =
     (if p = [] then ''.''
      else
        (let rooted = (hd p = CHR ''/'');
             out = (if rooted then ''/'' else []) @ join_elems (clean_elems rooted (split_path p []) [])
         in if out = [] then ''.'' else out))"

fun Join :: "string list \<Rightarrow> string" where
  "Join [] = []"
| "Join (e # es) = (if e = [] then Join es else Clean (join_elems (e # es)))"

definition IsAbs :: "string \<Rightarrow> bool" where
  "IsAbs p = (p \<noteq> [] \<and> hd p = CHR ''/'')"

fun strip_slashes :: "string \<Rightarrow> string" where
  "strip_slashes [] = []"
| "strip_slashes (c # cs) = (if c = CHR ''/'' then strip_slashes cs else c # cs)"

definition Base :: "string \<Rightarrow> string" where
  "Base p =
     (if p = [] then ''.''
      else
        (let q = rev (strip_slashes (rev p));
             b = rev (takeWhile (\<lambda>c. c \<noteq> CHR ''/'') (rev q))
         in if b = [] then ''/'' else b))"

section \<open>The filesystem\<close>

text \<open>
  The directory tree that \<open>os.ReadDir\<close> reads. A directory holds its entries in the
  order of the listing, each a name and the node under it; \<open>Denied\<close> is a directory that
  cannot be listed. \<open>ReadDir\<close> fails on anything that is not a listable directory.
\<close>

datatype fsnode = File | Denied | Dir "(string \<times> fsnode) list"

type_synonym DirEntry = "string \<times> fsnode"

definition Name :: "DirEntry \<Rightarrow> string" where
  "Name f = fst f"

fun IsDir :: "DirEntry \<Rightarrow> bool" where
  "IsDir (n, File) = False"
| "IsDir (n, Denied) = True"
| "IsDir (n, Dir fs) = True"

fun ReadDir :: "fsnode \<Rightarrow> string \<Rightarrow> error + DirEntry list" where
  "ReadDir File name = Inl (PathError ''open'' name ''not a directory'')"
| "ReadDir Denied name = Inl (PathError ''open'' name ''permission denied'')"
| "ReadDir (Dir fs) name = Inr fs"

section \<open>library.go\<close>

definition ErrExtensionSet :: error where
  "ErrExtensionSet =
     Errorf ''empty extension set: at least one media extension must be specified'' []"

definition ErrExtensionsOverlap :: error where
  "ErrExtensionsOverlap =
     Errorf ''playlist extension set may not overlap media file extension set'' []"

definition ErrEmptyLibrary :: error where
  "ErrEmptyLibrary = Errorf ''library is empty'' []"

record mediaFile =
  path :: string
  title :: string

record playlistFile =
  paths :: "string list"
  title :: string

text \<open>
  The interface \<open>Playable\<close> has three implementations: \<open>mediaFile\<close>, \<open>playlistFile\<close>
  and the pointer to a \<open>Library\<close>.
\<close>

datatype Playable = MediaFile mediaFile | PlaylistFile playlistFile | LibraryPtr Library
  and Library = Library (entries: "Playable list") (nested: "Library list") (root: string)

definition mediaFile_Files :: "mediaFile \<Rightarrow> string list" where
  "mediaFile_Files m = [path m]"

definition mediaFile_Title :: "mediaFile \<Rightarrow> string" where
  "mediaFile_Title m = mediaFile.title m"

definition playlistFile_Files :: "playlistFile \<Rightarrow> string list" where
  "playlistFile_Files p = paths p"

definition playlistFile_Title :: "playlistFile \<Rightarrow> string" where
  "playlistFile_Title p = playlistFile.title p"

definition loadSingleFile :: "Library \<Rightarrow> string \<Rightarrow> Library \<times> error option" where
  "loadSingleFile l p =
     (Library (entries l @ [MediaFile \<lparr>path = p, title = Base p\<rparr>]) (nested l) (root l), None)"

definition loadPlaylistFile :: "Library \<Rightarrow> string \<Rightarrow> Library \<times> error option" where
  "loadPlaylistFile l p =
     (Library (entries l @ [PlaylistFile \<lparr>paths = [p], title = Base p\<rparr>]) (nested l) (root l), None)"

text \<open>The two lookup tables; the second loop returns the extension found in both.\<close>

fun load_ext :: "string list \<Rightarrow> string set \<Rightarrow> string set" where
  "load_ext [] ext = ext"
| "load_ext (e # es) ext = load_ext es (insert e ext)"

fun load_pext :: "string set \<Rightarrow> string list \<Rightarrow> string set \<Rightarrow> string + string set" where
  "load_pext ext [] pext = Inr pext"
| "load_pext ext (e # es) pext =
     (if e \<in> ext then Inl e else load_pext ext es (insert e pext))"

text \<open>
  \<open>NewLibrary\<close> takes the directory tree found at \<open>root\<close> and returns, with the library
  and the error, the calls of \<open>os.ReadDir\<close> it made, in order: the path read and the
  node found there. \<open>NewLibrary_loop\<close> is the loop over the listing, from the library
  built so far.
\<close>

type_synonym reads = "(string \<times> fsnode) list"

function NewLibrary :: "fsnode \<Rightarrow> string \<Rightarrow> string list \<Rightarrow> string list \<Rightarrow> Library \<times> error option \<times> reads"
  and NewLibrary_loop :: "DirEntry list \<Rightarrow> string \<Rightarrow> string list \<Rightarrow> string list \<Rightarrow> string set \<Rightarrow> string set \<Rightarrow> Library \<Rightarrow> Library \<times> error option \<times> reads"
  where
  "NewLibrary fsys root' extensions playlistExtensions =
     (let lib = Library [] [] root' in
      if length extensions = 0 then
        (lib, Some (Errorf ''open library %s: %w'' [Str root', Err ErrExtensionSet]), [])
      else
        (let ext = load_ext extensions {} in
         case load_pext ext playlistExtensions {} of
           Inl e \<Rightarrow>
             (lib, Some (Errorf ''open library %s: playlist extension %q: %w''
                           [Str root', Str e, Err ErrExtensionsOverlap]), [])
         | Inr pext \<Rightarrow>
             (case ReadDir fsys root' of
                Inl err \<Rightarrow>
                  (lib, Some (Errorf ''open library %s: %w'' [Str root', Err err]),
                   [(root', fsys)])
              | Inr fs \<Rightarrow>
                  (if length fs = 0 then
                     (lib, Some (Errorf ''open library %s: %s'' [Str root', Err ErrEmptyLibrary]),
                      [(root', fsys)])
                   else
                     (case NewLibrary_loop fs root' extensions playlistExtensions ext pext lib of
                        (lib', err, rs) \<Rightarrow> (lib', err, (root', fsys) # rs))))))"
| "NewLibrary_loop [] root' extensions playlistExtensions ext pext lib = (lib, None, [])"
| "NewLibrary_loop (f # fs) root' extensions playlistExtensions ext pext lib =
     (let e = fst (snd (Cut (Name f) ''.''));
          path = Join [root', Name f] in
      if IsDir f then
        (case NewLibrary (snd f) path extensions playlistExtensions of
           (nest, Some err, rs) \<Rightarrow>
             (lib, Some (Errorf ''open library %s: %w'' [Str root', Err err]), rs)
         | (nest, None, rs) \<Rightarrow>
             (case NewLibrary_loop fs root' extensions playlistExtensions ext pext
                     (Library (entries lib) (nested lib @ [nest]) (root lib)) of
                (lib', err, rs') \<Rightarrow> (lib', err, rs @ rs')))
      else if e \<in> ext then
        (case loadSingleFile lib path of
           (lib1, Some err) \<Rightarrow>
             (lib1, Some (Errorf ''open library %s: file %s: %w''
                            [Str root', Str (Name f), Err err]), [])
         | (lib1, None) \<Rightarrow>
             NewLibrary_loop fs root' extensions playlistExtensions ext pext lib1)
      else if e \<in> pext then
        (case loadPlaylistFile lib path of
           (lib1, Some err) \<Rightarrow>
             (lib1, Some (Errorf ''open library %s: playlist %s: %w''
                            [Str root', Str (Name f), Err err]), [])
         | (lib1, None) \<Rightarrow>
             NewLibrary_loop fs root' extensions playlistExtensions ext pext lib1)
      else NewLibrary_loop fs root' extensions playlistExtensions ext pext lib)"
  by pat_completeness auto
termination
proof (relation "measure (\<lambda>x. case x of
          Inl (fsys, _) \<Rightarrow> size fsys
        | Inr (fs, _) \<Rightarrow> size_list (\<lambda>f. size (snd f)) fs)", goal_cases)
  case (2 fsys root' extensions playlistExtensions lib ext pext fs)
  then obtain "fsys = Dir fs"
    by (cases fsys) auto
  moreover have "size_list (\<lambda>f. size (snd f)) fs \<le> size_list (size_prod (\<lambda>_. 0) size) fs"
    by (induction fs) (auto simp: size_prod_simp)
  ultimately show ?case
    by simp
qed auto

definition Library_Root :: "Library \<Rightarrow> string" where
  "Library_Root l = root l"

fun Files_loop :: "Playable list \<Rightarrow> string list \<Rightarrow> string list" where
  "Files_loop [] f = f"
| "Files_loop (e # es) f =
     (case e of
        MediaFile fi \<Rightarrow> Files_loop es (f @ [path fi])
      | PlaylistFile p \<Rightarrow> Files_loop es f
      | LibraryPtr l \<Rightarrow> Files_loop es f)"

definition Library_Files :: "Library \<Rightarrow> string list" where
  "Library_Files l = Files_loop (entries l) []"

definition Library_Title :: "Library \<Rightarrow> string" where
  "Library_Title l = Base (root l)"

definition Library_Nested :: "Library \<Rightarrow> Library list" where
  "Library_Nested l = nested l"

text \<open>The interface methods, dispatched on the implementation.\<close>

fun Files :: "Playable \<Rightarrow> string list" where
  "Files (MediaFile m) = mediaFile_Files m"
| "Files (PlaylistFile p) = playlistFile_Files p"
| "Files (LibraryPtr l) = Library_Files l"

fun Title :: "Playable \<Rightarrow> string" where
  "Title (MediaFile m) = mediaFile_Title m"
| "Title (PlaylistFile p) = playlistFile_Title p"
| "Title (LibraryPtr l) = Library_Title l"

section \<open>Notions used to state the properties\<close>

text \<open>
  The extension in the words of the specification: the text after the first dot of the
  file name, empty when the name has no dot.
\<close>

definition extension :: "string \<Rightarrow> string" where
  "extension n =
     (if CHR ''.'' \<in> set n then tl (dropWhile (\<lambda>c. c \<noteq> CHR ''.'') n) else [])"

text \<open>What one element of the listing adds to \<open>entries\<close>.\<close>

definition entry_for :: "string \<Rightarrow> string set \<Rightarrow> string set \<Rightarrow> DirEntry \<Rightarrow> Playable list" where
  "entry_for root' ext pext f =
     (let p = Join [root', Name f] in
      if IsDir f then []
      else if extension (Name f) \<in> ext then [MediaFile \<lparr>path = p, title = Base p\<rparr>]
      else if extension (Name f) \<in> pext then [PlaylistFile \<lparr>paths = [p], title = Base p\<rparr>]
      else [])"

text \<open>The library built for a subdirectory of the listing, its error and its reads.\<close>

definition child :: "string \<Rightarrow> string list \<Rightarrow> string list \<Rightarrow> DirEntry \<Rightarrow> Library \<times> error option \<times> reads" where
  "child root' extensions playlistExtensions f =
     NewLibrary (snd f) (Join [root', Name f]) extensions playlistExtensions"

definition child_ok :: "string \<Rightarrow> string list \<Rightarrow> string list \<Rightarrow> DirEntry \<Rightarrow> bool" where
  "child_ok root' extensions playlistExtensions f =
     (fst (snd (child root' extensions playlistExtensions f)) = None)"

fun is_file_entry :: "Playable \<Rightarrow> bool" where
  "is_file_entry (MediaFile m) = True"
| "is_file_entry (PlaylistFile p) = True"
| "is_file_entry (LibraryPtr l) = False"

text \<open>The paths of the media files among some entries.\<close>

fun media_paths :: "Playable list \<Rightarrow> string list" where
  "media_paths [] = []"
| "media_paths (MediaFile m # es) = path m # media_paths es"
| "media_paths (PlaylistFile p # es) = media_paths es"
| "media_paths (LibraryPtr l # es) = media_paths es"

text \<open>
  A directory entry with nothing playable under it: a file with an extension of neither
  table, or a directory that has entries, all of them of this kind.
\<close>

fun unplayable :: "string set \<Rightarrow> string set \<Rightarrow> fsnode \<Rightarrow> string \<Rightarrow> bool" where
  "unplayable ext pext File n = (extension n \<notin> ext \<and> extension n \<notin> pext)"
| "unplayable ext pext Denied n = False"
| "unplayable ext pext (Dir fs) n =
     (fs \<noteq> [] \<and> list_all (\<lambda>f. unplayable ext pext (snd f) (fst f)) fs)"

text \<open>
  A directory entry holding only files with an extension of neither table and
  directories, at any depth; the directories may be without entries.
\<close>

fun only_unrecognised :: "string set \<Rightarrow> string set \<Rightarrow> fsnode \<Rightarrow> string \<Rightarrow> bool" where
  "only_unrecognised ext pext File n = (extension n \<notin> ext \<and> extension n \<notin> pext)"
| "only_unrecognised ext pext Denied n = False"
| "only_unrecognised ext pext (Dir fs) n = list_all (\<lambda>f. only_unrecognised ext pext (snd f) (fst f)) fs"

text \<open>A library with no entry, at any depth.\<close>

fun no_entries :: "Library \<Rightarrow> bool" where
  "no_entries (Library es ns r) = (es = [] \<and> list_all no_entries ns)"

text \<open>
  The names a directory listing can hold: not empty, without separator, and neither of
  the two special entries.
\<close>

definition valid_name :: "string \<Rightarrow> bool" where
  "valid_name n = (n \<noteq> [] \<and> CHR ''/'' \<notin> set n \<and> n \<noteq> ''.'' \<and> n \<noteq> ''..'')"

text \<open>The error built when a directory has no entries (line 159).\<close>

definition empty_failure :: "string \<Rightarrow> error" where
  "empty_failure p = Errorf ''open library %s: %s'' [Str p, Err ErrEmptyLibrary]"

text \<open>
  What holds of the calls of \<open>os.ReadDir\<close> made by a construction: only the last
  of them can have found a directory without entries, none has when the construction
  succeeds, and when the last one has, the error returned started as the failure of that
  directory.
\<close>

definition reads_ok :: "Library \<times> error option \<times> reads \<Rightarrow> bool" where
  "reads_ok res =
     (case res of (lib, err, rs) \<Rightarrow>
        (err = None \<longrightarrow> (\<forall>x \<in> set rs. snd x \<noteq> Dir [])) \<and>
        (\<forall>x \<in> set (butlast rs). snd x \<noteq> Dir []) \<and>
        (rs \<noteq> [] \<longrightarrow> snd (last rs) = Dir [] \<longrightarrow>
           (\<exists>e. err = Some e \<and> cause e = empty_failure (fst (last rs)))))"

section \<open>The loops of NewLibrary\<close>

declare NewLibrary.simps [simp del]
declare NewLibrary_loop.simps(2) [simp del]
declare errors_Is.simps [simp del]
declare cause.simps [simp del]
declare Join.simps [simp del]

lemma load_ext_set: "load_ext es X = X \<union> set es"
  by (induction es arbitrary: X) auto

lemma load_pext_disjoint:
  "set ps \<inter> ext = {} \<Longrightarrow> load_pext ext ps X = Inr (X \<union> set ps)"
  by (induction ps arbitrary: X) auto

lemma load_pext_overlap:
  "set ps \<inter> ext \<noteq> {} \<Longrightarrow> \<exists>e. load_pext ext ps X = Inl e \<and> e \<in> set ps \<and> e \<in> ext"
  by (induction ps arbitrary: X) auto

lemma load_pext_Inr: "load_pext ext ps X = Inr Y \<Longrightarrow> set ps \<inter> ext = {} \<and> Y = X \<union> set ps"
  by (induction ps arbitrary: X) (auto split: if_splits)

lemma Index_dot_None: "CHR ''.'' \<notin> set n \<Longrightarrow> Index n ''.'' = None"
  by (induction n) auto

lemma Index_dot_Some:
  "CHR ''.'' \<in> set n \<Longrightarrow> Index n ''.'' = Some (length (takeWhile (\<lambda>c. c \<noteq> CHR ''.'') n))"
  by (induction n) auto

lemma Cut_extension: "fst (snd (Cut n ''.'')) = extension n"
proof (cases "CHR ''.'' \<in> set n")
  case True
  then show ?thesis
    by (simp add: Cut_def extension_def Index_dot_Some dropWhile_eq_drop drop_Suc tl_drop)
next
  case False
  then show ?thesis
    by (simp add: Cut_def extension_def Index_dot_None)
qed

lemma loop_Cons:
  "NewLibrary_loop (f # fs) r xs ps ext pext lib =
     (if IsDir f then
        (case child r xs ps f of
           (nest, Some err, rs) \<Rightarrow> (lib, Some (Errorf ''open library %s: %w'' [Str r, Err err]), rs)
         | (nest, None, rs) \<Rightarrow>
             (case NewLibrary_loop fs r xs ps ext pext
                     (Library (entries lib) (nested lib @ [nest]) (root lib)) of
                (lib', err, rs') \<Rightarrow> (lib', err, rs @ rs')))
      else NewLibrary_loop fs r xs ps ext pext
             (Library (entries lib @ entry_for r ext pext f) (nested lib) (root lib)))"
  by (simp add: NewLibrary_loop.simps(2) child_def entry_for_def Cut_extension Let_def
        loadSingleFile_def loadPlaylistFile_def del: Join.simps)


lemma loop_success:
  "list_all (\<lambda>f. IsDir f \<longrightarrow> child_ok r xs ps f) fs \<Longrightarrow>
   NewLibrary_loop fs r xs ps ext pext lib =
     (Library (entries lib @ concat (map (entry_for r ext pext) fs))
        (nested lib @ map (\<lambda>f. fst (child r xs ps f)) (filter IsDir fs)) (root lib),
      None,
      concat (map (\<lambda>f. snd (snd (child r xs ps f))) (filter IsDir fs)))"
proof (induction fs arbitrary: lib)
  case Nil
  then show ?case by simp
next
  case (Cons f fs)
  show ?case
  proof (cases "IsDir f")
    case True
    with Cons.prems obtain nest rs where c: "child r xs ps f = (nest, None, rs)"
      by (cases "child r xs ps f") (auto simp: child_ok_def)
    from Cons.prems have "list_all (\<lambda>f. IsDir f \<longrightarrow> child_ok r xs ps f) fs"
      by simp
    from Cons.IH [OF this] True c show ?thesis
      by (simp add: loop_Cons entry_for_def)
  next
    case False
    from Cons.prems have "list_all (\<lambda>f. IsDir f \<longrightarrow> child_ok r xs ps f) fs"
      by simp
    from Cons.IH [OF this] False show ?thesis
      by (simp add: loop_Cons)
  qed
qed

lemma loop_fail:
  assumes "list_all (\<lambda>f. IsDir f \<longrightarrow> child_ok r xs ps f) pre"
    and "IsDir f" and "child r xs ps f = (nest, Some err, rs)"
  shows "NewLibrary_loop (pre @ f # post) r xs ps ext pext lib =
     (Library (entries lib @ concat (map (entry_for r ext pext) pre))
        (nested lib @ map (\<lambda>f. fst (child r xs ps f)) (filter IsDir pre)) (root lib),
      Some (Errorf ''open library %s: %w'' [Str r, Err err]),
      concat (map (\<lambda>f. snd (snd (child r xs ps f))) (filter IsDir pre)) @ rs)"
  using assms(1)
proof (induction pre arbitrary: lib)
  case Nil
  from assms(2,3) show ?case
    by (cases lib) (simp add: loop_Cons)
next
  case (Cons g pre)
  from Cons.prems have pre: "list_all (\<lambda>f. IsDir f \<longrightarrow> child_ok r xs ps f) pre"
    by simp
  show ?case
  proof (cases "IsDir g")
    case True
    with Cons.prems obtain n' rs' where c: "child r xs ps g = (n', None, rs')"
      by (cases "child r xs ps g") (auto simp: child_ok_def)
    from Cons.IH [OF pre] True c show ?thesis
      by (simp add: loop_Cons entry_for_def)
  next
    case False
    from Cons.IH [OF pre] False show ?thesis
      by (simp add: loop_Cons)
  qed
qed

lemma loop_None:
  "fst (snd (NewLibrary_loop fs r xs ps ext pext lib)) = None \<Longrightarrow>
   list_all (\<lambda>f. IsDir f \<longrightarrow> child_ok r xs ps f) fs"
proof (induction fs arbitrary: lib)
  case Nil
  then show ?case by simp
next
  case (Cons f fs)
  show ?case
  proof (cases "IsDir f")
    case True
    obtain nest err rs where c: "child r xs ps f = (nest, err, rs)"
      by (cases "child r xs ps f")
    with True Cons.prems have e: "err = None"
      by (cases err) (simp_all add: loop_Cons)
    with c True Cons.prems have
      "fst (snd (NewLibrary_loop fs r xs ps ext pext
          (Library (entries lib) (nested lib @ [nest]) (root lib)))) = None"
      by (simp add: loop_Cons split: prod.splits)
    from Cons.IH [OF this] c e show ?thesis
      by (simp add: child_ok_def)
  next
    case False
    with Cons.prems have
      "fst (snd (NewLibrary_loop fs r xs ps ext pext
          (Library (entries lib @ entry_for r ext pext f) (nested lib) (root lib)))) = None"
      by (simp add: loop_Cons)
    from Cons.IH [OF this] False show ?thesis
      by simp
  qed
qed

lemma NewLibrary_no_extensions:
  "NewLibrary fsys r [] ps =
     (Library [] [] r, Some (Errorf ''open library %s: %w'' [Str r, Err ErrExtensionSet]), [])"
  by (simp add: NewLibrary.simps)

lemma NewLibrary_overlap:
  assumes "set ps \<inter> set xs \<noteq> {}"
  shows "\<exists>e. e \<in> set ps \<and> e \<in> set xs \<and>
     NewLibrary fsys r xs ps =
       (Library [] [] r,
        Some (Errorf ''open library %s: playlist extension %q: %w''
                [Str r, Str e, Err ErrExtensionsOverlap]), [])"
proof -
  from assms have "xs \<noteq> []" by auto
  moreover from assms obtain e where
    "load_pext (set xs) ps {} = Inl e" "e \<in> set ps" "e \<in> set xs"
    using load_pext_overlap [of ps "set xs" "{}"] by auto
  ultimately show ?thesis
    by (auto simp: NewLibrary.simps load_ext_set)
qed

lemma NewLibrary_checked:
  assumes "xs \<noteq> []" and "set ps \<inter> set xs = {}"
  shows "NewLibrary fsys r xs ps =
     (case ReadDir fsys r of
        Inl err \<Rightarrow>
          (Library [] [] r, Some (Errorf ''open library %s: %w'' [Str r, Err err]), [(r, fsys)])
      | Inr fs \<Rightarrow>
          (if fs = [] then (Library [] [] r, Some (empty_failure r), [(r, fsys)])
           else (case NewLibrary_loop fs r xs ps (set xs) (set ps) (Library [] [] r) of
                   (lib', err, rs) \<Rightarrow> (lib', err, (r, fsys) # rs))))"
  using assms
  by (simp add: NewLibrary.simps [of fsys] load_ext_set load_pext_disjoint empty_failure_def
      split: sum.splits)

lemma NewLibrary_None:
  assumes "fst (snd (NewLibrary fsys r xs ps)) = None"
  shows "xs \<noteq> [] \<and> set ps \<inter> set xs = {} \<and> (\<exists>fs. fsys = Dir fs \<and> fs \<noteq> [])"
proof -
  from assms have xs: "xs \<noteq> []"
    by (auto simp: NewLibrary_no_extensions)
  have ps: "set ps \<inter> set xs = {}"
  proof (rule ccontr)
    assume "set ps \<inter> set xs \<noteq> {}"
    from NewLibrary_overlap [OF this, of fsys r] assms show False by auto
  qed
  from assms show ?thesis
    unfolding NewLibrary_checked [OF xs ps] using xs ps
    by (cases fsys) (auto split: if_splits)
qed

lemma NewLibrary_unread:
  assumes "xs = [] \<or> set ps \<inter> set xs \<noteq> {}"
  shows "\<exists>e. NewLibrary fsys r xs ps = (Library [] [] r, Some e, [])"
  using assms NewLibrary_overlap [of ps xs fsys r]
  by (auto simp: NewLibrary_no_extensions)

section \<open>Errors and the log of reads\<close>

lemma cause_wrap [simp]: "cause (Errorf ''open library %s: %w'' [Str r, Err e]) = cause e"
  by (subst cause.simps) simp

lemma cause_empty_failure [simp]: "cause (empty_failure p) = empty_failure p"
  by (subst cause.simps) (simp add: empty_failure_def)

lemma errors_Is_wrap:
  "errors_Is (Errorf ''open library %s: %w'' [Str r, Err e]) t =
     (Errorf ''open library %s: %w'' [Str r, Err e] = t \<or> errors_Is e t)"
  by (subst errors_Is.simps) simp

lemma butlast_append_ok:
  "\<forall>x \<in> set rs. P x \<Longrightarrow> \<forall>x \<in> set (butlast rs'). P x \<Longrightarrow> \<forall>x \<in> set (butlast (rs @ rs')). P x"
  by (auto simp: butlast_append dest: in_set_butlastD)

lemma loop_reads_ok:
  assumes "\<And>f. f \<in> set fs \<Longrightarrow> IsDir f \<Longrightarrow> reads_ok (child r xs ps f)"
  shows "reads_ok (NewLibrary_loop fs r xs ps ext pext lib)"
  using assms
proof (induction fs arbitrary: lib)
  case Nil
  then show ?case by (simp add: reads_ok_def)
next
  case (Cons f fs)
  have rest: "reads_ok (NewLibrary_loop fs r xs ps ext pext l)" for l
    using Cons.prems by (intro Cons.IH) auto
  show ?case
  proof (cases "IsDir f")
    case False
    with rest show ?thesis by (simp add: loop_Cons)
  next
    case True
    obtain nest err rs where c: "child r xs ps f = (nest, err, rs)"
      by (cases "child r xs ps f")
    with True Cons.prems have ok: "reads_ok (nest, err, rs)"
      by (metis list.set_intros(1))
    show ?thesis
    proof (cases err)
      case (Some e)
      with ok c True show ?thesis
        by (simp add: loop_Cons reads_ok_def)
    next
      case None
      obtain l' err' rs' where
        l: "NewLibrary_loop fs r xs ps ext pext
              (Library (entries lib) (nested lib @ [nest]) (root lib)) = (l', err', rs')"
        by (cases "NewLibrary_loop fs r xs ps ext pext
              (Library (entries lib) (nested lib @ [nest]) (root lib))")
      from rest [of "Library (entries lib) (nested lib @ [nest]) (root lib)"] l
      have ok': "reads_ok (l', err', rs')" by simp
      from ok None have a: "\<forall>x \<in> set rs. snd x \<noteq> Dir []"
        by (simp add: reads_ok_def)
      from ok' have b: "\<forall>x \<in> set (butlast rs'). snd x \<noteq> Dir []"
        by (simp add: reads_ok_def)
      have 1: "\<forall>x \<in> set (butlast (rs @ rs')). snd x \<noteq> Dir []"
        by (rule butlast_append_ok [OF a b])
      have 2: "err' = None \<longrightarrow> (\<forall>x \<in> set (rs @ rs'). snd x \<noteq> Dir [])"
        using a ok' by (auto simp: reads_ok_def)
      have 3: "rs @ rs' \<noteq> [] \<longrightarrow> snd (last (rs @ rs')) = Dir [] \<longrightarrow>
          (\<exists>e. err' = Some e \<and> cause e = empty_failure (fst (last (rs @ rs'))))"
      proof (cases "rs' = []")
        case True
        with a show ?thesis by auto
      next
        case False
        with ok' show ?thesis by (simp add: reads_ok_def)
      qed
      from 1 2 3 c None True l show ?thesis
        by (simp add: loop_Cons reads_ok_def)
    qed
  qed
qed

lemma NewLibrary_reads_ok: "reads_ok (NewLibrary fsys r xs ps)"
proof (induction fsys arbitrary: r)
  case File
  show ?case
  proof (cases "xs = [] \<or> set ps \<inter> set xs \<noteq> {}")
    case True
    from NewLibrary_unread [OF this, of File r] show ?thesis
      by (auto simp: reads_ok_def)
  next
    case False
    then show ?thesis
      by (simp add: NewLibrary_checked reads_ok_def)
  qed
next
  case Denied
  show ?case
  proof (cases "xs = [] \<or> set ps \<inter> set xs \<noteq> {}")
    case True
    from NewLibrary_unread [OF this, of Denied r] show ?thesis
      by (auto simp: reads_ok_def)
  next
    case False
    then show ?thesis
      by (simp add: NewLibrary_checked reads_ok_def)
  qed
next
  case (Dir fs)
  show ?case
  proof (cases "xs = [] \<or> set ps \<inter> set xs \<noteq> {}")
    case True
    from NewLibrary_unread [OF this, of "Dir fs" r] show ?thesis
      by (auto simp: reads_ok_def)
  next
    case False
    then have chk: "xs \<noteq> []" "set ps \<inter> set xs = {}" by auto
    show ?thesis
    proof (cases "fs = []")
      case True
      then show ?thesis
        by (simp add: NewLibrary_checked [OF chk] reads_ok_def)
    next
      case False
      have "reads_ok (child r xs ps f)" if "f \<in> set fs" for f
        unfolding child_def by (rule Dir.IH [OF that]) (cases f, simp)
      then have ok: "reads_ok (NewLibrary_loop fs r xs ps (set xs) (set ps) (Library [] [] r))"
        by (intro loop_reads_ok) auto
      obtain l err rs where
        l: "NewLibrary_loop fs r xs ps (set xs) (set ps) (Library [] [] r) = (l, err, rs)"
        by (cases "NewLibrary_loop fs r xs ps (set xs) (set ps) (Library [] [] r)")
      with ok False show ?thesis
        by (auto simp: NewLibrary_checked [OF chk] reads_ok_def dest: in_set_butlastD)
    qed
  qed
qed

lemma loop_Some:
  "fst (snd (NewLibrary_loop fs r xs ps ext pext lib)) = Some e \<Longrightarrow>
   \<exists>f err. f \<in> set fs \<and> IsDir f \<and> fst (snd (child r xs ps f)) = Some err \<and>
     e = Errorf ''open library %s: %w'' [Str r, Err err]"
proof (induction fs arbitrary: lib)
  case Nil
  then show ?case by simp
next
  case (Cons f fs)
  show ?case
  proof (cases "IsDir f")
    case False
    with Cons.prems have
      "fst (snd (NewLibrary_loop fs r xs ps ext pext
          (Library (entries lib @ entry_for r ext pext f) (nested lib) (root lib)))) = Some e"
      by (simp add: loop_Cons)
    from Cons.IH [OF this] show ?thesis
      by auto
  next
    case True
    obtain nest err rs where c: "child r xs ps f = (nest, err, rs)"
      by (cases "child r xs ps f")
    show ?thesis
    proof (cases err)
      case (Some e')
      with c True Cons.prems have
        "fst (snd (child r xs ps f)) = Some e' \<and> e = Errorf ''open library %s: %w'' [Str r, Err e']"
        by (simp add: loop_Cons)
      with True show ?thesis
        by (intro exI [of _ f] exI [of _ e']) simp
    next
      case None
      with c True Cons.prems have
        "fst (snd (NewLibrary_loop fs r xs ps ext pext
            (Library (entries lib) (nested lib @ [nest]) (root lib)))) = Some e"
        by (simp add: loop_Cons split: prod.splits)
      from Cons.IH [OF this] show ?thesis
        by auto
    qed
  qed
qed

lemma unread_not_Is_ErrEmptyLibrary:
  assumes "xs = [] \<or> set ps \<inter> set xs \<noteq> {}"
    and "fst (snd (NewLibrary fsys r xs ps)) = Some e"
  shows "\<not> errors_Is e ErrEmptyLibrary"
proof (cases "xs = []")
  case True
  with assms(2) show ?thesis
    by (auto simp: NewLibrary_no_extensions errors_Is.simps [of "Errorf f as" for f as]
        ErrEmptyLibrary_def ErrExtensionSet_def)
next
  case False
  with assms(1) have "set ps \<inter> set xs \<noteq> {}"
    by simp
  from NewLibrary_overlap [OF this, of fsys r] assms(2) show ?thesis
    by (auto simp: errors_Is.simps [of "Errorf f as" for f as]
        ErrEmptyLibrary_def ErrExtensionsOverlap_def)
qed

lemma not_Is_ErrEmptyLibrary:
  "fst (snd (NewLibrary fsys r xs ps)) = Some e \<Longrightarrow> \<not> errors_Is e ErrEmptyLibrary"
proof (induction fsys arbitrary: r e)
  case File
  show ?case
  proof (cases "xs = [] \<or> set ps \<inter> set xs \<noteq> {}")
    case True
    from unread_not_Is_ErrEmptyLibrary [OF this File] show ?thesis .
  next
    case False
    with File show ?thesis
      by (auto simp: NewLibrary_checked errors_Is.simps [of "Errorf f as" for f as]
          errors_Is.simps [of "PathError a b c" for a b c] ErrEmptyLibrary_def)
  qed
next
  case Denied
  show ?case
  proof (cases "xs = [] \<or> set ps \<inter> set xs \<noteq> {}")
    case True
    from unread_not_Is_ErrEmptyLibrary [OF this Denied] show ?thesis .
  next
    case False
    with Denied show ?thesis
      by (auto simp: NewLibrary_checked errors_Is.simps [of "Errorf f as" for f as]
          errors_Is.simps [of "PathError a b c" for a b c] ErrEmptyLibrary_def)
  qed
next
  case (Dir fs)
  show ?case
  proof (cases "xs = [] \<or> set ps \<inter> set xs \<noteq> {}")
    case True
    from unread_not_Is_ErrEmptyLibrary [OF this Dir.prems] show ?thesis .
  next
    case False
    then have chk: "xs \<noteq> []" "set ps \<inter> set xs = {}" by auto
    show ?thesis
    proof (cases "fs = []")
      case True
      with Dir.prems show ?thesis
        by (auto simp: NewLibrary_checked [OF chk] empty_failure_def ErrEmptyLibrary_def
            errors_Is.simps [of "Errorf f as" for f as])
    next
      case False
      with Dir.prems have
        "fst (snd (NewLibrary_loop fs r xs ps (set xs) (set ps) (Library [] [] r))) = Some e"
        by (simp add: NewLibrary_checked [OF chk] split: prod.splits)
      from loop_Some [OF this] obtain f err where
        f: "f \<in> set fs" "fst (snd (child r xs ps f)) = Some err"
        and e: "e = Errorf ''open library %s: %w'' [Str r, Err err]"
        by blast
      have "\<not> errors_Is err ErrEmptyLibrary"
        by (rule Dir.IH [OF f(1) _ f(2) [unfolded child_def]]) (cases f, simp)
      with e show ?thesis
        by (simp add: errors_Is_wrap ErrEmptyLibrary_def)
    qed
  qed
qed

section \<open>What a construction returns\<close>

lemma NewLibrary_success:
  assumes "fst (snd (NewLibrary fsys r xs ps)) = None"
  shows "\<exists>fs. fsys = Dir fs \<and> fs \<noteq> [] \<and>
     list_all (\<lambda>f. IsDir f \<longrightarrow> child_ok r xs ps f) fs \<and>
     NewLibrary fsys r xs ps =
       (Library (concat (map (entry_for r (set xs) (set ps)) fs))
          (map (\<lambda>f. fst (child r xs ps f)) (filter IsDir fs)) r,
        None,
        (r, fsys) # concat (map (\<lambda>f. snd (snd (child r xs ps f))) (filter IsDir fs)))"
proof -
  from NewLibrary_None [OF assms] obtain fs where
    chk: "xs \<noteq> []" "set ps \<inter> set xs = {}" and fs: "fsys = Dir fs" "fs \<noteq> []"
    by blast
  from assms fs have
    "fst (snd (NewLibrary_loop fs r xs ps (set xs) (set ps) (Library [] [] r))) = None"
    by (simp add: NewLibrary_checked [OF chk] split: prod.splits)
  then have ok: "list_all (\<lambda>f. IsDir f \<longrightarrow> child_ok r xs ps f) fs"
    by (rule loop_None)
  from loop_success [OF ok, of "set xs" "set ps" "Library [] [] r"] fs ok show ?thesis
    by (simp add: NewLibrary_checked [OF chk])
qed

lemma NewLibrary_failure:
  assumes "xs \<noteq> []" and "set ps \<inter> set xs = {}"
    and "list_all (\<lambda>f. IsDir f \<longrightarrow> child_ok r xs ps f) pre"
    and "IsDir f" and "fst (snd (child r xs ps f)) = Some err"
  shows "NewLibrary (Dir (pre @ f # post)) r xs ps =
     (Library (concat (map (entry_for r (set xs) (set ps)) pre))
        (map (\<lambda>f. fst (child r xs ps f)) (filter IsDir pre)) r,
      Some (Errorf ''open library %s: %w'' [Str r, Err err]),
      (r, Dir (pre @ f # post)) #
        concat (map (\<lambda>f. snd (snd (child r xs ps f))) (filter IsDir pre)) @
        snd (snd (child r xs ps f)))"
proof -
  obtain nest rs where c: "child r xs ps f = (nest, Some err, rs)"
    using assms(5) by (cases "child r xs ps f") auto
  from loop_fail [OF assms(3,4) c, of post "set xs" "set ps" "Library [] [] r"] c show ?thesis
    by (simp add: NewLibrary_checked [OF assms(1,2)])
qed

lemma Files_loop_media_paths: "Files_loop es f = f @ media_paths es"
  by (induction es arbitrary: f rule: media_paths.induct) simp_all

lemma Library_Files_media_paths: "Library_Files l = media_paths (entries l)"
  by (simp add: Library_Files_def Files_loop_media_paths)

lemma media_paths_append: "media_paths (es @ es') = media_paths es @ media_paths es'"
  by (induction es rule: media_paths.induct) simp_all

lemma media_paths_entries:
  "ext \<inter> pext = {} \<Longrightarrow> media_paths (concat (map (entry_for r ext pext) fs)) =
     map (\<lambda>f. Join [r, Name f]) (filter (\<lambda>f. \<not> IsDir f \<and> extension (Name f) \<in> ext) fs)"
  by (induction fs) (auto simp: media_paths_append entry_for_def Let_def)

lemma entry_for_is_file: "e \<in> set (entry_for r ext pext f) \<Longrightarrow> is_file_entry e"
  by (auto simp: entry_for_def Let_def split: if_splits)

lemma extension_no_dot: "CHR ''.'' \<notin> set n \<Longrightarrow> extension n = []"
  by (simp add: extension_def)

lemma extension_first_dot:
  assumes "CHR ''.'' \<notin> set a"
  shows "extension (a @ ''.'' @ b) = b"
proof -
  have "dropWhile (\<lambda>c. c \<noteq> CHR ''.'') (a @ ''.'' @ b) = dropWhile (\<lambda>c. c \<noteq> CHR ''.'') (''.'' @ b)"
    by (rule dropWhile_append2) (use assms in auto)
  then show ?thesis
    by (simp add: extension_def)
qed

lemma loop_root:
  "NewLibrary_loop fs r xs ps ext pext lib = (l, e, rs) \<Longrightarrow> root l = root lib"
proof (induction fs arbitrary: lib l e rs)
  case Nil
  then show ?case by auto
next
  case (Cons f fs)
  show ?case
  proof (cases "IsDir f")
    case False
    with Cons.prems Cons.IH [of "Library (entries lib @ entry_for r ext pext f) (nested lib) (root lib)"]
    show ?thesis by (simp add: loop_Cons)
  next
    case True
    obtain nest err rs' where c: "child r xs ps f = (nest, err, rs')"
      by (cases "child r xs ps f")
    show ?thesis
    proof (cases err)
      case (Some a)
      with c True Cons.prems show ?thesis
        by (auto simp: loop_Cons)
    next
      case None
      obtain l' e' rs'' where
        n: "NewLibrary_loop fs r xs ps ext pext
              (Library (entries lib) (nested lib @ [nest]) (root lib)) = (l', e', rs'')"
        by (cases "NewLibrary_loop fs r xs ps ext pext
              (Library (entries lib) (nested lib @ [nest]) (root lib))")
      from Cons.IH [OF n] n c None True Cons.prems show ?thesis
        by (simp add: loop_Cons)
    qed
  qed
qed

lemma NewLibrary_root: "root (fst (NewLibrary fsys r xs ps)) = r"
proof (cases "xs = [] \<or> set ps \<inter> set xs \<noteq> {}")
  case True
  from NewLibrary_unread [OF this, of fsys r] show ?thesis
    by auto
next
  case False
  then have chk: "xs \<noteq> []" "set ps \<inter> set xs = {}" by auto
  show ?thesis
  proof (cases fsys)
    case (Dir fs)
    obtain l e rs where
      n: "NewLibrary_loop fs r xs ps (set xs) (set ps) (Library [] [] r) = (l, e, rs)"
      by (cases "NewLibrary_loop fs r xs ps (set xs) (set ps) (Library [] [] r)")
    from loop_root [OF n] n Dir show ?thesis
      by (simp add: NewLibrary_checked [OF chk])
  qed (simp_all add: NewLibrary_checked [OF chk])
qed

lemma Cut_first_dot:
  assumes "CHR ''.'' \<notin> set a"
  shows "Cut (a @ ''.'' @ b) ''.'' = (a, b, True)"
proof -
  have "takeWhile (\<lambda>c. c \<noteq> CHR ''.'') (a @ ''.'' @ b) = a"
    using assms by (induction a) auto
  then have "Index (a @ ''.'' @ b) ''.'' = Some (length a)"
    using Index_dot_Some [of "a @ ''.'' @ b"] by simp
  then show ?thesis
    by (simp add: Cut_def)
qed

lemma Cut_no_dot: "CHR ''.'' \<notin> set n \<Longrightarrow> Cut n ''.'' = (n, [], False)"
  by (simp add: Cut_def Index_dot_None)

lemma media_entry_listed:
  assumes "f \<in> set fs" and "\<not> IsDir f" and "extension (Name f) \<in> ext"
  shows "MediaFile \<lparr>path = Join [r, Name f], title = Base (Join [r, Name f])\<rparr>
           \<in> set (concat (map (entry_for r ext pext) fs))"
  using assms by (auto simp: entry_for_def Let_def intro!: bexI [of _ f])

lemma example_listing:
  "NewLibrary (Dir [(''a.mp3'', File), (''b.m3u'', File), (''c.png'', File)]) r [''mp3''] [''m3u''] =
     (Library
        [MediaFile \<lparr>path = Join [r, ''a.mp3''], title = Base (Join [r, ''a.mp3''])\<rparr>,
         PlaylistFile \<lparr>paths = [Join [r, ''b.m3u'']], title = Base (Join [r, ''b.m3u''])\<rparr>]
        [] r,
      None,
      [(r, Dir [(''a.mp3'', File), (''b.m3u'', File), (''c.png'', File)])])"
proof -
  have chk: "[''mp3''] \<noteq> []" "set [''m3u''] \<inter> set [''mp3''] = {}"
    by simp_all
  have e: "extension ''a.mp3'' = ''mp3''" "extension ''b.m3u'' = ''m3u''"
    "extension ''c.png'' = ''png''"
    by (simp_all add: extension_def)
  show ?thesis
    by (simp add: NewLibrary_checked [OF chk] loop_Cons entry_for_def Name_def Let_def e)
qed

section \<open>Paths of the entries of a directory\<close>

lemma split_path_no_slash: "CHR ''/'' \<notin> set n \<Longrightarrow> split_path n cur = [cur @ n]"
  by (induction n arbitrary: cur) auto

lemma split_path_slash:
  "split_path (a @ CHR ''/'' # b) cur = split_path a cur @ split_path b []"
  by (induction a arbitrary: cur) auto

lemma clean_elems_append:
  "clean_elems rooted (es @ es') out = clean_elems rooted es' (rev (clean_elems rooted es out))"
  by (induction es arbitrary: out) (auto split: list.splits)

lemma clean_elems_last:
  assumes "n \<noteq> []" "n \<noteq> ''.''" "n \<noteq> ''..''"
  shows "clean_elems rooted (es @ [n]) [] = clean_elems rooted es [] @ [n]"
  using assms by (simp add: clean_elems_append)

lemma join_elems_last:
  "join_elems (ys @ [n]) = (if ys = [] then n else join_elems ys @ ''/'' @ n)"
  by (induction ys rule: join_elems.induct) auto

lemma Base_last:
  assumes "n \<noteq> []" and "CHR ''/'' \<notin> set n" and "q = [] \<or> last q = CHR ''/''"
  shows "Base (q @ n) = n"
proof -
  from assms(1,2) have h: "hd (rev n) \<noteq> CHR ''/''"
    by (metis hd_rev last_in_set)
  from assms(1) h have s: "strip_slashes (rev n @ rev q) = rev n @ rev q"
    by (cases "rev n") auto
  have "takeWhile (\<lambda>c. c \<noteq> CHR ''/'') (rev n @ rev q) = rev n"
  proof (cases "q = []")
    case True
    with assms(2) show ?thesis by auto
  next
    case False
    with assms(3) have "hd (rev q) = CHR ''/''" "rev q \<noteq> []"
      by (simp_all add: hd_rev)
    then obtain t where "rev q = CHR ''/'' # t"
      by (cases "rev q") auto
    moreover from assms(2) have "\<forall>c \<in> set (rev n). c \<noteq> CHR ''/''"
      by auto
    ultimately show ?thesis
      by (subst takeWhile_append2) auto
  qed
  with s assms(1) show ?thesis
    by (simp add: Base_def Let_def)
qed

lemma Clean_name:
  assumes "valid_name n" and a: "a = [] \<or> last a = CHR ''/''"
  shows "\<exists>q. Clean (a @ n) = q @ n \<and> (q = [] \<or> last q = CHR ''/'')"
proof -
  from assms have n: "n \<noteq> []" "CHR ''/'' \<notin> set n" "n \<noteq> ''.''" "n \<noteq> ''..''"
    by (simp_all add: valid_name_def)
  have "\<exists>es. split_path (a @ n) [] = es @ [n]"
  proof (cases "a = []")
    case True
    with n show ?thesis by (simp add: split_path_no_slash)
  next
    case False
    with a obtain a' where "a = a' @ ''/''"
      by (metis append_butlast_last_id)
    with n show ?thesis
      by (simp add: split_path_slash split_path_no_slash)
  qed
  then obtain es where es: "split_path (a @ n) [] = es @ [n]" ..
  define rooted where "rooted = (hd (a @ n) = CHR ''/'')"
  define ys where "ys = clean_elems rooted es []"
  define q where "q = (if rooted then ''/'' else []) @ (if ys = [] then [] else join_elems ys @ ''/'')"
  have ce: "clean_elems rooted (split_path (a @ n) []) [] = ys @ [n]"
    unfolding es ys_def using n by (simp add: clean_elems_last)
  have "Clean (a @ n) = (if rooted then ''/'' else []) @ join_elems (ys @ [n])"
    using n by (simp add: Clean_def Let_def rooted_def [symmetric] ce join_elems_last)
  also have "\<dots> = q @ n"
    by (simp add: join_elems_last q_def)
  finally have "Clean (a @ n) = q @ n" .
  moreover have "q = [] \<or> last q = CHR ''/''"
    by (auto simp: q_def)
  ultimately show ?thesis
    by blast
qed

lemma Join_name:
  assumes "valid_name n"
  shows "\<exists>q. Join [r, n] = q @ n \<and> (q = [] \<or> last q = CHR ''/'')"
proof (cases "r = []")
  case True
  from assms have "n \<noteq> []" by (simp add: valid_name_def)
  with True Clean_name [OF assms, of "[]"] show ?thesis
    by (simp add: Join.simps)
next
  case False
  with Clean_name [OF assms, of "r @ ''/''"] show ?thesis
    by (simp add: Join.simps)
qed

lemma Base_Join:
  assumes "valid_name n"
  shows "Base (Join [r, n]) = n"
proof -
  from Join_name [OF assms, of r] obtain q where
    q: "Join [r, n] = q @ n" "q = [] \<or> last q = CHR ''/''"
    by blast
  from assms have "n \<noteq> []" "CHR ''/'' \<notin> set n"
    by (simp_all add: valid_name_def)
  from Base_last [OF this q(2)] q(1) show ?thesis
    by simp
qed

lemma Join_IsAbs:
  assumes "IsAbs r"
  shows "IsAbs (Join [r, n])"
proof -
  from assms have r: "r \<noteq> []" "hd r = CHR ''/''"
    by (simp_all add: IsAbs_def)
  then have "hd (r @ CHR ''/'' # n) = CHR ''/''"
    by simp
  with r show ?thesis
    by (simp add: Join.simps Clean_def Let_def IsAbs_def)
qed

section \<open>Directories with nothing playable\<close>

lemma unplayable_entry:
  "unplayable ext pext x n \<Longrightarrow> entry_for r ext pext (n, x) = []"
  by (cases x) (simp_all add: entry_for_def Name_def)

lemma unplayable_entries:
  assumes "list_all (\<lambda>f. unplayable ext pext (snd f) (fst f)) fs"
  shows "concat (map (entry_for r ext pext) fs) = []"
proof -
  have "entry_for r ext pext f = []" if "f \<in> set fs" for f
  proof -
    from assms that have "unplayable ext pext (snd f) (fst f)"
      by (simp add: list_all_iff)
    from unplayable_entry [OF this, of r] show ?thesis
      by simp
  qed
  then show ?thesis
    by simp
qed

lemma unplayable_builds:
  assumes "xs \<noteq> []" and "set ps \<inter> set xs = {}"
  shows "unplayable (set xs) (set ps) (Dir fs) n \<Longrightarrow>
     fst (snd (NewLibrary (Dir fs) r xs ps)) = None \<and> no_entries (fst (NewLibrary (Dir fs) r xs ps))"
proof (induction "Dir fs" arbitrary: fs r n)
  case (Dir fs)
  from Dir.prems have ne: "fs \<noteq> []"
    and all: "list_all (\<lambda>f. unplayable (set xs) (set ps) (snd f) (fst f)) fs"
    by simp_all
  have sub: "fst (snd (child r xs ps f)) = None \<and> no_entries (fst (child r xs ps f))"
    if f: "f \<in> set fs" "IsDir f" for f
  proof -
    obtain m x where m: "f = (m, x)" by (cases f)
    from all f(1) m have u: "unplayable (set xs) (set ps) x m"
      by (auto simp: list_all_iff)
    with f(2) m obtain gs where gs: "x = Dir gs"
      by (cases x) auto
    from f(1) m gs have "(m, Dir gs) \<in> set fs" by simp
    from Dir.hyps [OF this _ u [unfolded gs]] m gs show ?thesis
      by (simp add: child_def)
  qed
  then have ok: "list_all (\<lambda>f. IsDir f \<longrightarrow> child_ok r xs ps f) fs"
    by (simp add: list_all_iff child_ok_def)
  from loop_success [OF ok, of "set xs" "set ps" "Library [] [] r"] ne sub
    unplayable_entries [OF all, of r]
  show ?case
    by (simp add: NewLibrary_checked [OF assms] list_all_iff)
qed

lemma unplayable_only_unrecognised: "unplayable ext pext x n \<Longrightarrow> only_unrecognised ext pext x n"
  by (induction ext pext x n rule: unplayable.induct) (auto simp: list_all_iff)

lemma only_unrecognised_fails:
  assumes "xs \<noteq> []" and "set ps \<inter> set xs = {}"
  shows "only_unrecognised (set xs) (set ps) (Dir fs) n \<Longrightarrow> \<not> unplayable (set xs) (set ps) (Dir fs) n \<Longrightarrow>
     \<exists>e p. fst (snd (NewLibrary (Dir fs) r xs ps)) = Some e \<and> cause e = empty_failure p \<and>
       snd (snd (NewLibrary (Dir fs) r xs ps)) \<noteq> [] \<and>
       last (snd (snd (NewLibrary (Dir fs) r xs ps))) = (p, Dir [])"
proof (induction "Dir fs" arbitrary: fs r n)
  case (Dir fs)
  show ?case
  proof (cases "fs = []")
    case True
    then show ?thesis
      by (simp add: NewLibrary_checked [OF assms])
  next
    case False
    with Dir.prems(2) have "\<exists>f \<in> set fs. \<not> unplayable (set xs) (set ps) (snd f) (fst f)"
      by (simp add: list_all_iff)
    from split_list_first_prop [OF this] obtain pre f post where
      fs: "fs = pre @ f # post"
      and f: "\<not> unplayable (set xs) (set ps) (snd f) (fst f)"
      and pre: "\<forall>g \<in> set pre. unplayable (set xs) (set ps) (snd g) (fst g)"
      by blast
    obtain m x where m: "f = (m, x)" by (cases f)
    from Dir.prems(1) fs m have nf: "only_unrecognised (set xs) (set ps) x m"
      by simp
    with f m obtain gs where gs: "x = Dir gs"
      by (cases x) auto
    from fs m gs have mem: "(m, Dir gs) \<in> set fs" by simp
    from Dir.hyps [OF mem _ nf [unfolded gs], of "Join [r, m]"] f m gs
    obtain e p where e: "fst (snd (child r xs ps f)) = Some e" "cause e = empty_failure p"
      and rs: "snd (snd (child r xs ps f)) \<noteq> []" "last (snd (snd (child r xs ps f))) = (p, Dir [])"
      by (auto simp: child_def Name_def)
    have ok: "list_all (\<lambda>g. IsDir g \<longrightarrow> child_ok r xs ps g) pre"
    proof (unfold list_all_iff, intro ballI impI)
      fix g assume g: "g \<in> set pre" "IsDir g"
      obtain k y where k: "g = (k, y)" by (cases g)
      from pre g(1) k have u: "unplayable (set xs) (set ps) y k" by auto
      with g(2) k obtain hs where "y = Dir hs" by (cases y) auto
      with unplayable_builds [OF assms, of hs k "Join [r, k]"] u k
      show "child_ok r xs ps g"
        by (simp add: child_ok_def child_def Name_def)
    qed
    have d: "IsDir f" using m gs by simp
    from NewLibrary_failure [OF assms ok d e(1), of post] e(2) rs fs show ?thesis
      by simp
  qed
qed

section \<open>Classification of the files of a listing\<close>

lemma entry_for_path:
  assumes "e \<in> set (entry_for r ext pext g)" and "p \<in> set (Files e)"
  shows "p = Join [r, Name g] \<and> \<not> IsDir g \<and>
     (if extension (Name g) \<in> ext
      then e = MediaFile \<lparr>path = p, title = Base p\<rparr>
      else extension (Name g) \<in> pext \<and> e = PlaylistFile \<lparr>paths = [p], title = Base p\<rparr>)"
  using assms
  by (auto simp: entry_for_def Let_def mediaFile_Files_def playlistFile_Files_def
      split: if_splits)

lemma entry_with_path:
  assumes v: "list_all (\<lambda>g. valid_name (Name g)) fs" and f: "valid_name (Name f)"
    and e: "e \<in> set (concat (map (entry_for r ext pext) fs))"
    and p: "Join [r, Name f] \<in> set (Files e)"
  shows "if extension (Name f) \<in> ext
     then e = MediaFile \<lparr>path = Join [r, Name f], title = Base (Join [r, Name f])\<rparr>
     else extension (Name f) \<in> pext \<and>
       e = PlaylistFile \<lparr>paths = [Join [r, Name f]], title = Base (Join [r, Name f])\<rparr>"
proof -
  from e obtain g where g: "g \<in> set fs" "e \<in> set (entry_for r ext pext g)"
    by auto
  from entry_for_path [OF g(2) p] have j: "Join [r, Name f] = Join [r, Name g]"
    by simp
  from v g(1) have "valid_name (Name g)"
    by (simp add: list_all_iff)
  from Base_Join [OF this, of r] Base_Join [OF f, of r] j have "Name g = Name f"
    by metis
  then have x: "extension (Name g) = extension (Name f)"
    by simp
  from entry_for_path [OF g(2) p] show ?thesis
    by (auto simp: x split: if_splits)
qed

lemma playlist_entry_listed:
  assumes "f \<in> set fs" and "\<not> IsDir f" and "extension (Name f) \<notin> ext"
    and "extension (Name f) \<in> pext"
  shows "PlaylistFile \<lparr>paths = [Join [r, Name f]], title = Base (Join [r, Name f])\<rparr>
           \<in> set (concat (map (entry_for r ext pext) fs))"
  using assms by (auto simp: entry_for_def Let_def intro!: bexI [of _ f])

lemma classification:
  assumes v: "list_all (\<lambda>g. valid_name (Name g)) fs" and d: "ext \<inter> pext = {}"
    and f: "f \<in> set fs" "\<not> IsDir f"
  shows "(MediaFile \<lparr>path = Join [r, Name f], title = Base (Join [r, Name f])\<rparr>
            \<in> set (concat (map (entry_for r ext pext) fs))) = (extension (Name f) \<in> ext)"
    and "(PlaylistFile \<lparr>paths = [Join [r, Name f]], title = Base (Join [r, Name f])\<rparr>
            \<in> set (concat (map (entry_for r ext pext) fs))) = (extension (Name f) \<in> pext)"
    and "(\<exists>e \<in> set (concat (map (entry_for r ext pext) fs)). Join [r, Name f] \<in> set (Files e)) =
           (extension (Name f) \<in> ext \<or> extension (Name f) \<in> pext)"
proof -
  from v f(1) have vf: "valid_name (Name f)"
    by (simp add: list_all_iff)
  note w = entry_with_path [OF v vf, of _ r ext pext]
  show "(MediaFile \<lparr>path = Join [r, Name f], title = Base (Join [r, Name f])\<rparr>
            \<in> set (concat (map (entry_for r ext pext) fs))) = (extension (Name f) \<in> ext)"
  proof
    assume m: "MediaFile \<lparr>path = Join [r, Name f], title = Base (Join [r, Name f])\<rparr>
            \<in> set (concat (map (entry_for r ext pext) fs))"
    from w [OF m] show "extension (Name f) \<in> ext"
      by (simp add: mediaFile_Files_def split: if_splits)
  next
    assume "extension (Name f) \<in> ext"
    from media_entry_listed [OF f this]
    show "MediaFile \<lparr>path = Join [r, Name f], title = Base (Join [r, Name f])\<rparr>
            \<in> set (concat (map (entry_for r ext pext) fs))" .
  qed
  show "(PlaylistFile \<lparr>paths = [Join [r, Name f]], title = Base (Join [r, Name f])\<rparr>
            \<in> set (concat (map (entry_for r ext pext) fs))) = (extension (Name f) \<in> pext)"
  proof
    assume m: "PlaylistFile \<lparr>paths = [Join [r, Name f]], title = Base (Join [r, Name f])\<rparr>
            \<in> set (concat (map (entry_for r ext pext) fs))"
    from w [OF m] show "extension (Name f) \<in> pext"
      by (simp add: playlistFile_Files_def split: if_splits)
  next
    assume x: "extension (Name f) \<in> pext"
    with d have "extension (Name f) \<notin> ext" by auto
    from playlist_entry_listed [OF f this x]
    show "PlaylistFile \<lparr>paths = [Join [r, Name f]], title = Base (Join [r, Name f])\<rparr>
            \<in> set (concat (map (entry_for r ext pext) fs))" .
  qed
  show "(\<exists>e \<in> set (concat (map (entry_for r ext pext) fs)). Join [r, Name f] \<in> set (Files e)) =
           (extension (Name f) \<in> ext \<or> extension (Name f) \<in> pext)"
  proof
    assume "\<exists>e \<in> set (concat (map (entry_for r ext pext) fs)). Join [r, Name f] \<in> set (Files e)"
    then obtain e where "e \<in> set (concat (map (entry_for r ext pext) fs))"
      "Join [r, Name f] \<in> set (Files e)"
      by blast
    from w [OF this] show "extension (Name f) \<in> ext \<or> extension (Name f) \<in> pext"
      by (simp split: if_splits)
  next
    assume x: "extension (Name f) \<in> ext \<or> extension (Name f) \<in> pext"
    show "\<exists>e \<in> set (concat (map (entry_for r ext pext) fs)). Join [r, Name f] \<in> set (Files e)"
    proof (cases "extension (Name f) \<in> ext")
      case True
      from media_entry_listed [OF f True, of r pext] show ?thesis
        by (intro bexI [of _ "MediaFile \<lparr>path = Join [r, Name f], title = Base (Join [r, Name f])\<rparr>"])
           (simp_all add: mediaFile_Files_def)
    next
      case False
      with x have y: "extension (Name f) \<in> pext" by simp
      from playlist_entry_listed [OF f False y, of r] show ?thesis
        by (intro bexI [of _ "PlaylistFile \<lparr>paths = [Join [r, Name f]], title = Base (Join [r, Name f])\<rparr>"])
           (simp_all add: playlistFile_Files_def)
    qed
  qed
qed

lemma Files_path_iff:
  assumes v: "list_all (\<lambda>g. valid_name (Name g)) fs" and d: "ext \<inter> pext = {}"
    and f: "f \<in> set fs" "\<not> IsDir f"
  shows "(Join [r, Name f] \<in> set (media_paths (concat (map (entry_for r ext pext) fs)))) =
           (extension (Name f) \<in> ext)"
proof
  assume "Join [r, Name f] \<in> set (media_paths (concat (map (entry_for r ext pext) fs)))"
  then obtain g where g: "g \<in> set fs" "extension (Name g) \<in> ext"
    "Join [r, Name g] = Join [r, Name f]"
    unfolding media_paths_entries [OF d] by auto
  from v g(1) f(1) have "valid_name (Name g)" "valid_name (Name f)"
    by (simp_all add: list_all_iff)
  from Base_Join [OF this(1), of r] Base_Join [OF this(2), of r] g(3) have "Name g = Name f"
    by metis
  with g(2) show "extension (Name f) \<in> ext" by simp
next
  assume "extension (Name f) \<in> ext"
  with f show "Join [r, Name f] \<in> set (media_paths (concat (map (entry_for r ext pext) fs)))"
    unfolding media_paths_entries [OF d] by auto
qed

text \<open>With an absolute root, the entries of a listing have absolute paths.\<close>

lemma entry_for_IsAbs:
  assumes "IsAbs r" and "e \<in> set (entry_for r ext pext f)" and "p \<in> set (Files e)"
  shows "IsAbs p"
  using assms Join_IsAbs [OF assms(1), of "Name f"]
  by (auto simp: entry_for_def Let_def mediaFile_Files_def playlistFile_Files_def
      split: if_splits)

section \<open>The claims\<close>

text \<open>
  C6: when the playlist extensions share an element with the media extensions,
  \<open>NewLibrary\<close> fails, for every root and whatever the filesystem holds, with an error
  that wraps \<open>ErrExtensionsOverlap\<close> (so that \<open>errors.Is\<close> finds it) and names a
  shared extension, and it has made no call of \<open>os.ReadDir\<close>.
\<close>

theorem overlap_fails_before_reading:
  assumes "set playlistExtensions \<inter> set extensions \<noteq> {}"
  shows "\<exists>e err. e \<in> set playlistExtensions \<and> e \<in> set extensions \<and>
     err = Errorf ''open library %s: playlist extension %q: %w''
             [Str root', Str e, Err ErrExtensionsOverlap] \<and>
     NewLibrary fsys root' extensions playlistExtensions = (Library [] [] root', Some err, []) \<and>
     errors_Is err ErrExtensionsOverlap"
proof -
  from NewLibrary_overlap [OF assms, of fsys root'] obtain e where
    e: "e \<in> set playlistExtensions" "e \<in> set extensions"
    and n: "NewLibrary fsys root' extensions playlistExtensions =
       (Library [] [] root',
        Some (Errorf ''open library %s: playlist extension %q: %w''
                [Str root', Str e, Err ErrExtensionsOverlap]), [])"
    by blast
  have "errors_Is (Errorf ''open library %s: playlist extension %q: %w''
          [Str root', Str e, Err ErrExtensionsOverlap]) ErrExtensionsOverlap"
    by (simp add: errors_Is.simps [of "Errorf f as" for f as] ErrExtensionsOverlap_def)
  with e n show ?thesis
    by blast
qed

theorem overlap_fails_before_reading_witness:
  "set [''m3u''] \<inter> set [''mp3'', ''m3u''] \<noteq> {} \<and>
   NewLibrary (Dir [(''a.mp3'', File)]) ''/music'' [''mp3'', ''m3u''] [''m3u''] =
     (Library [] [] ''/music'',
      Some (Errorf ''open library %s: playlist extension %q: %w''
              [Str ''/music'', Str ''m3u'', Err ErrExtensionsOverlap]), [])"
proof -
  have h: "set [''m3u''] \<inter> set [''mp3'', ''m3u''] \<noteq> {}"
    by simp
  from overlap_fails_before_reading [OF h, of "''/music''" "Dir [(''a.mp3'', File)]"]
  show ?thesis
    by auto
qed

text \<open>
  C2: a directory without entries makes the construction fail with the EmptyLibrary
  failure, at the root and at any depth. At the root, once the extension lists have
  passed their checks, the result is the EmptyLibrary failure of the root. At any depth:
  when some call of \<open>os.ReadDir\<close> made during a construction has found a directory
  without entries, at path \<open>p\<close>, the construction returns an error, the chain of
  wrapped errors under it ends at the EmptyLibrary failure of \<open>p\<close>, and that call was
  the last one: nothing was read after it.
\<close>

theorem empty_directory_aborts:
  "(extensions \<noteq> [] \<and> set playlistExtensions \<inter> set extensions = {} \<longrightarrow>
      NewLibrary (Dir []) root' extensions playlistExtensions =
        (Library [] [] root', Some (empty_failure root'), [(root', Dir [])])) \<and>
   ((p, Dir []) \<in> set (snd (snd (NewLibrary fsys root' extensions playlistExtensions))) \<longrightarrow>
      (\<exists>e. fst (snd (NewLibrary fsys root' extensions playlistExtensions)) = Some e \<and>
           cause e = empty_failure p) \<and>
      last (snd (snd (NewLibrary fsys root' extensions playlistExtensions))) = (p, Dir []))"
proof (intro conjI impI)
  assume "extensions \<noteq> [] \<and> set playlistExtensions \<inter> set extensions = {}"
  then show "NewLibrary (Dir []) root' extensions playlistExtensions =
        (Library [] [] root', Some (empty_failure root'), [(root', Dir [])])"
    by (simp add: NewLibrary_checked)
next
  obtain lib err rs where
    n: "NewLibrary fsys root' extensions playlistExtensions = (lib, err, rs)"
    by (cases "NewLibrary fsys root' extensions playlistExtensions")
  assume "(p, Dir []) \<in> set (snd (snd (NewLibrary fsys root' extensions playlistExtensions)))"
  with n have p: "(p, Dir []) \<in> set rs"
    by simp
  from NewLibrary_reads_ok [of fsys root' extensions playlistExtensions] n
  have b: "\<forall>x \<in> set (butlast rs). snd x \<noteq> Dir []"
    and l: "rs \<noteq> [] \<longrightarrow> snd (last rs) = Dir [] \<longrightarrow>
          (\<exists>e. err = Some e \<and> cause e = empty_failure (fst (last rs)))"
    by (simp_all add: reads_ok_def)
  from p have ne: "rs \<noteq> []"
    by auto
  then have "rs = butlast rs @ [last rs]"
    by simp
  with p have "(p, Dir []) \<in> set (butlast rs) \<or> (p, Dir []) = last rs"
    by (metis Un_iff empty_iff empty_set set_ConsD set_append)
  with b have last: "last rs = (p, Dir [])"
    by auto
  with l ne have c: "\<exists>e. err = Some e \<and> cause e = empty_failure p"
    by simp
  from c n show "\<exists>e. fst (snd (NewLibrary fsys root' extensions playlistExtensions)) = Some e \<and>
           cause e = empty_failure p"
    by simp
  from last n show "last (snd (snd (NewLibrary fsys root' extensions playlistExtensions))) = (p, Dir [])"
    by simp
qed

theorem empty_directory_aborts_witness:
  "([''mp3''] \<noteq> [] \<and> set [''m3u''] \<inter> set [''mp3''] = {}) \<and>
   NewLibrary (Dir []) ''/music'' [''mp3''] [''m3u''] =
     (Library [] [] ''/music'', Some (empty_failure ''/music''), [(''/music'', Dir [])]) \<and>
   snd (snd (NewLibrary
       (Dir [(''a.mp3'', File), (''sub'', Dir [(''x.mp3'', File), (''e'', Dir [])]),
             (''z'', Dir [(''y.mp3'', File)])])
       ''/music'' [''mp3''] [''m3u''])) =
     [(''/music'', Dir [(''a.mp3'', File), (''sub'', Dir [(''x.mp3'', File), (''e'', Dir [])]),
             (''z'', Dir [(''y.mp3'', File)])]),
      (''/music/sub'', Dir [(''x.mp3'', File), (''e'', Dir [])]),
      (''/music/sub/e'', Dir [])] \<and>
   (\<exists>e. fst (snd (NewLibrary
       (Dir [(''a.mp3'', File), (''sub'', Dir [(''x.mp3'', File), (''e'', Dir [])]),
             (''z'', Dir [(''y.mp3'', File)])])
       ''/music'' [''mp3''] [''m3u''])) = Some e \<and> cause e = empty_failure ''/music/sub/e'')"
proof -
  have h: "[''mp3''] \<noteq> [] \<and> set [''m3u''] \<inter> set [''mp3''] = {}"
    by simp
  have r: "snd (snd (NewLibrary
       (Dir [(''a.mp3'', File), (''sub'', Dir [(''x.mp3'', File), (''e'', Dir [])]),
             (''z'', Dir [(''y.mp3'', File)])])
       ''/music'' [''mp3''] [''m3u''])) =
     [(''/music'', Dir [(''a.mp3'', File), (''sub'', Dir [(''x.mp3'', File), (''e'', Dir [])]),
             (''z'', Dir [(''y.mp3'', File)])]),
      (''/music/sub'', Dir [(''x.mp3'', File), (''e'', Dir [])]),
      (''/music/sub/e'', Dir [])]"
    by code_simp
  then have m: "(''/music/sub/e'', Dir []) \<in> set (snd (snd (NewLibrary
       (Dir [(''a.mp3'', File), (''sub'', Dir [(''x.mp3'', File), (''e'', Dir [])]),
             (''z'', Dir [(''y.mp3'', File)])])
       ''/music'' [''mp3''] [''m3u''])))"
    by simp
  from empty_directory_aborts [of "[''mp3'']" "[''m3u'']" "''/music''" "''/music/sub/e''"
      "Dir [(''a.mp3'', File), (''sub'', Dir [(''x.mp3'', File), (''e'', Dir [])]),
             (''z'', Dir [(''y.mp3'', File)])]"] h r m
  show ?thesis
    by blast
qed

text \<open>
  C10: the failure for an empty media extension list wraps \<open>ErrExtensionSet\<close> and the
  failure for overlapping lists wraps \<open>ErrExtensionsOverlap\<close>, so \<open>errors.Is\<close> finds
  each sentinel. The failure for a directory without entries carries \<open>ErrEmptyLibrary\<close>
  under the verb \<open>%s\<close>, which does not wrap: no error that \<open>NewLibrary\<close> returns, for
  any filesystem and arguments, matches \<open>ErrEmptyLibrary\<close> under \<open>errors.Is\<close>.
\<close>

theorem sentinels_wrapped_except_empty_library:
  "(\<exists>e. fst (snd (NewLibrary fsys root' [] playlistExtensions)) = Some e \<and>
        errors_Is e ErrExtensionSet) \<and>
   (set playlistExtensions \<inter> set extensions \<noteq> {} \<longrightarrow>
      (\<exists>e. fst (snd (NewLibrary fsys root' extensions playlistExtensions)) = Some e \<and>
           errors_Is e ErrExtensionsOverlap)) \<and>
   (extensions \<noteq> [] \<and> set playlistExtensions \<inter> set extensions = {} \<longrightarrow>
      fst (snd (NewLibrary (Dir []) root' extensions playlistExtensions)) =
        Some (Errorf ''open library %s: %s'' [Str root', Err ErrEmptyLibrary]) \<and>
      Unwrap (Errorf ''open library %s: %s'' [Str root', Err ErrEmptyLibrary]) = None) \<and>
   (\<forall>e. fst (snd (NewLibrary fsys root' extensions playlistExtensions)) = Some e \<longrightarrow>
      \<not> errors_Is e ErrEmptyLibrary)"
proof (intro conjI impI allI)
  show "\<exists>e. fst (snd (NewLibrary fsys root' [] playlistExtensions)) = Some e \<and>
        errors_Is e ErrExtensionSet"
    by (simp add: NewLibrary_no_extensions errors_Is_wrap errors_Is.simps [of ErrExtensionSet])
next
  assume "set playlistExtensions \<inter> set extensions \<noteq> {}"
  from NewLibrary_overlap [OF this, of fsys root'] obtain e where
    "NewLibrary fsys root' extensions playlistExtensions =
       (Library [] [] root',
        Some (Errorf ''open library %s: playlist extension %q: %w''
                [Str root', Str e, Err ErrExtensionsOverlap]), [])"
    by blast
  then show "\<exists>e. fst (snd (NewLibrary fsys root' extensions playlistExtensions)) = Some e \<and>
           errors_Is e ErrExtensionsOverlap"
    by (simp add: errors_Is.simps [of "Errorf f as" for f as] ErrExtensionsOverlap_def)
next
  assume "extensions \<noteq> [] \<and> set playlistExtensions \<inter> set extensions = {}"
  then show "fst (snd (NewLibrary (Dir []) root' extensions playlistExtensions)) =
        Some (Errorf ''open library %s: %s'' [Str root', Err ErrEmptyLibrary])"
    by (simp add: NewLibrary_checked empty_failure_def)
next
  show "Unwrap (Errorf ''open library %s: %s'' [Str root', Err ErrEmptyLibrary]) = None"
    by simp
next
  fix e
  assume "fst (snd (NewLibrary fsys root' extensions playlistExtensions)) = Some e"
  then show "\<not> errors_Is e ErrEmptyLibrary"
    by (rule not_Is_ErrEmptyLibrary)
qed

theorem sentinels_wrapped_except_empty_library_witness:
  "set [''m3u''] \<inter> set [''mp3'', ''m3u''] \<noteq> {} \<and>
   ([''mp3''] \<noteq> [] \<and> set [''m3u''] \<inter> set [''mp3''] = {}) \<and>
   fst (snd (NewLibrary (Dir [(''sub'', Dir [])]) ''/music'' [''mp3''] [''m3u''])) =
     Some (Errorf ''open library %s: %w''
       [Str ''/music'', Err (Errorf ''open library %s: %s'' [Str ''/music/sub'', Err ErrEmptyLibrary])]) \<and>
   \<not> errors_Is (Errorf ''open library %s: %w''
       [Str ''/music'', Err (Errorf ''open library %s: %s'' [Str ''/music/sub'', Err ErrEmptyLibrary])])
     ErrEmptyLibrary \<and>
   fst (snd (NewLibrary (Dir []) ''/music'' [''mp3''] [''m3u''])) =
     Some (Errorf ''open library %s: %s'' [Str ''/music'', Err ErrEmptyLibrary]) \<and>
   (\<exists>e. fst (snd (NewLibrary (Dir []) ''/music'' [''mp3'', ''m3u''] [''m3u''])) = Some e \<and>
      errors_Is e ErrExtensionsOverlap)"
proof -
  have h1: "set [''m3u''] \<inter> set [''mp3'', ''m3u''] \<noteq> {}"
    by simp
  have h2: "[''mp3''] \<noteq> [] \<and> set [''m3u''] \<inter> set [''mp3''] = {}"
    by simp
  have h3: "fst (snd (NewLibrary (Dir [(''sub'', Dir [])]) ''/music'' [''mp3''] [''m3u''])) =
     Some (Errorf ''open library %s: %w''
       [Str ''/music'', Err (Errorf ''open library %s: %s'' [Str ''/music/sub'', Err ErrEmptyLibrary])])"
    by code_simp
  from sentinels_wrapped_except_empty_library
      [of "Dir [(''sub'', Dir [])]" "''/music''" "[''m3u'']" "[''mp3'']"] h3
  have a: "\<not> errors_Is (Errorf ''open library %s: %w''
       [Str ''/music'', Err (Errorf ''open library %s: %s'' [Str ''/music/sub'', Err ErrEmptyLibrary])])
     ErrEmptyLibrary"
    by blast
  from sentinels_wrapped_except_empty_library
      [of "Dir []" "''/music''" "[''m3u'']" "[''mp3'']"] h2
  have b: "fst (snd (NewLibrary (Dir []) ''/music'' [''mp3''] [''m3u''])) =
     Some (Errorf ''open library %s: %s'' [Str ''/music'', Err ErrEmptyLibrary])"
    by blast
  from sentinels_wrapped_except_empty_library
      [of "Dir []" "''/music''" "[''m3u'']" "[''mp3'', ''m3u'']"] h1
  have c: "\<exists>e. fst (snd (NewLibrary (Dir []) ''/music'' [''mp3'', ''m3u''] [''m3u''])) = Some e \<and>
      errors_Is e ErrExtensionsOverlap"
    by blast
  from h1 h2 h3 a b c show ?thesis
    by blast
qed

text \<open>
  C8: when the construction of a directory succeeds, every element of \<open>entries\<close> is a
  media file or a playlist file, never a library; \<open>entries\<close> is, in the order of the
  listing, what each element of the listing contributes (nothing for a directory, nothing
  for a file of an unknown extension); \<open>nested\<close> is, in the order of the listing, the
  libraries built for the directories of the listing, each rooted at the path of its
  directory, and holds nothing for a file.
\<close>

theorem entries_files_nested_directories_in_order:
  assumes "fst (snd (NewLibrary fsys root' extensions playlistExtensions)) = None"
  shows "\<exists>fs. fsys = Dir fs \<and>
     list_all is_file_entry (entries (fst (NewLibrary fsys root' extensions playlistExtensions))) \<and>
     entries (fst (NewLibrary fsys root' extensions playlistExtensions)) =
       concat (map (entry_for root' (set extensions) (set playlistExtensions)) fs) \<and>
     nested (fst (NewLibrary fsys root' extensions playlistExtensions)) =
       map (\<lambda>f. fst (child root' extensions playlistExtensions f)) (filter IsDir fs) \<and>
     map root (nested (fst (NewLibrary fsys root' extensions playlistExtensions))) =
       map (\<lambda>f. Join [root', Name f]) (filter IsDir fs)"
proof -
  from NewLibrary_success [OF assms] obtain fs where fs: "fsys = Dir fs"
    and n: "NewLibrary fsys root' extensions playlistExtensions =
       (Library (concat (map (entry_for root' (set extensions) (set playlistExtensions)) fs))
          (map (\<lambda>f. fst (child root' extensions playlistExtensions f)) (filter IsDir fs)) root',
        None,
        (root', fsys) #
          concat (map (\<lambda>f. snd (snd (child root' extensions playlistExtensions f))) (filter IsDir fs)))"
    by blast
  have "list_all is_file_entry
      (concat (map (entry_for root' (set extensions) (set playlistExtensions)) fs))"
    by (auto simp: list_all_iff dest: entry_for_is_file)
  moreover have "map root (map (\<lambda>f. fst (child root' extensions playlistExtensions f)) (filter IsDir fs)) =
       map (\<lambda>f. Join [root', Name f]) (filter IsDir fs)"
    by (simp add: child_def NewLibrary_root)
  ultimately show ?thesis
    using fs n by simp
qed

theorem entries_files_nested_directories_in_order_witness:
  "fst (snd (NewLibrary
      (Dir [(''a.mp3'', File), (''b'', Dir [(''x.mp3'', File)]), (''c.m3u'', File),
            (''d'', Dir [(''y.txt'', File)]), (''e.png'', File), (''f.mp3'', File)])
      ''/music'' [''mp3''] [''m3u''])) = None \<and>
   fst (NewLibrary
      (Dir [(''a.mp3'', File), (''b'', Dir [(''x.mp3'', File)]), (''c.m3u'', File),
            (''d'', Dir [(''y.txt'', File)]), (''e.png'', File), (''f.mp3'', File)])
      ''/music'' [''mp3''] [''m3u'']) =
     Library
       [MediaFile \<lparr>path = ''/music/a.mp3'', title = ''a.mp3''\<rparr>,
        PlaylistFile \<lparr>paths = [''/music/c.m3u''], title = ''c.m3u''\<rparr>,
        MediaFile \<lparr>path = ''/music/f.mp3'', title = ''f.mp3''\<rparr>]
       [Library [MediaFile \<lparr>path = ''/music/b/x.mp3'', title = ''x.mp3''\<rparr>] [] ''/music/b'',
        Library [] [] ''/music/d'']
       ''/music'' \<and>
   map root (nested (fst (NewLibrary
      (Dir [(''a.mp3'', File), (''b'', Dir [(''x.mp3'', File)]), (''c.m3u'', File),
            (''d'', Dir [(''y.txt'', File)]), (''e.png'', File), (''f.mp3'', File)])
      ''/music'' [''mp3''] [''m3u'']))) =
     map (\<lambda>f. Join [''/music'', Name f]) (filter IsDir
       [(''a.mp3'', File), (''b'', Dir [(''x.mp3'', File)]), (''c.m3u'', File),
            (''d'', Dir [(''y.txt'', File)]), (''e.png'', File), (''f.mp3'', File)])"
proof -
  have h: "fst (snd (NewLibrary
      (Dir [(''a.mp3'', File), (''b'', Dir [(''x.mp3'', File)]), (''c.m3u'', File),
            (''d'', Dir [(''y.txt'', File)]), (''e.png'', File), (''f.mp3'', File)])
      ''/music'' [''mp3''] [''m3u''])) = None"
    by code_simp
  have v: "fst (NewLibrary
      (Dir [(''a.mp3'', File), (''b'', Dir [(''x.mp3'', File)]), (''c.m3u'', File),
            (''d'', Dir [(''y.txt'', File)]), (''e.png'', File), (''f.mp3'', File)])
      ''/music'' [''mp3''] [''m3u'']) =
     Library
       [MediaFile \<lparr>path = ''/music/a.mp3'', title = ''a.mp3''\<rparr>,
        PlaylistFile \<lparr>paths = [''/music/c.m3u''], title = ''c.m3u''\<rparr>,
        MediaFile \<lparr>path = ''/music/f.mp3'', title = ''f.mp3''\<rparr>]
       [Library [MediaFile \<lparr>path = ''/music/b/x.mp3'', title = ''x.mp3''\<rparr>] [] ''/music/b'',
        Library [] [] ''/music/d'']
       ''/music''"
    by code_simp
  from entries_files_nested_directories_in_order [OF h] h v show ?thesis
    by auto
qed

text \<open>
  C1: \<open>Files\<close> of a library is the list of the paths of its media-file entries, in the
  order of \<open>entries\<close>: playlist entries add nothing, and \<open>nested\<close> is not looked at.
  When a construction succeeds, \<open>Files\<close> of the library is the list of the paths, in the
  order of the listing, of the files of the listing whose extension is a media
  extension. For a directory holding the files a.mp3, b.m3u and c.png, built at any root
  with media extension mp3 and playlist extension m3u, the library has the media entry of
  a.mp3 and the playlist entry of b.m3u, nothing for c.png, and \<open>Files\<close> returns the path
  of a.mp3 alone; at the root /music that path is /music/a.mp3.
\<close>

theorem Files_lists_direct_media_files:
  "Library_Files l = media_paths (entries l) \<and>
   (fst (snd (NewLibrary fsys root' extensions playlistExtensions)) = None \<longrightarrow>
      (\<exists>fs. fsys = Dir fs \<and>
         Library_Files (fst (NewLibrary fsys root' extensions playlistExtensions)) =
           map (\<lambda>f. Join [root', Name f])
             (filter (\<lambda>f. \<not> IsDir f \<and> extension (Name f) \<in> set extensions) fs))) \<and>
   NewLibrary (Dir [(''a.mp3'', File), (''b.m3u'', File), (''c.png'', File)])
       root' [''mp3''] [''m3u''] =
     (Library
        [MediaFile \<lparr>path = Join [root', ''a.mp3''], title = ''a.mp3''\<rparr>,
         PlaylistFile \<lparr>paths = [Join [root', ''b.m3u'']], title = ''b.m3u''\<rparr>]
        [] root',
      None,
      [(root', Dir [(''a.mp3'', File), (''b.m3u'', File), (''c.png'', File)])]) \<and>
   Library_Files (fst (NewLibrary (Dir [(''a.mp3'', File), (''b.m3u'', File), (''c.png'', File)])
       root' [''mp3''] [''m3u''])) = [Join [root', ''a.mp3'']] \<and>
   Library_Files (fst (NewLibrary (Dir [(''a.mp3'', File), (''b.m3u'', File), (''c.png'', File)])
       ''/music'' [''mp3''] [''m3u''])) = [''/music/a.mp3'']"
proof (intro conjI impI)
  show "Library_Files l = media_paths (entries l)"
    by (rule Library_Files_media_paths)
next
  assume ok: "fst (snd (NewLibrary fsys root' extensions playlistExtensions)) = None"
  from NewLibrary_None [OF ok] have d: "set extensions \<inter> set playlistExtensions = {}"
    by auto
  from NewLibrary_success [OF ok] obtain fs where "fsys = Dir fs"
    and "entries (fst (NewLibrary fsys root' extensions playlistExtensions)) =
       concat (map (entry_for root' (set extensions) (set playlistExtensions)) fs)"
    by auto
  with media_paths_entries [OF d, of root' fs]
  show "\<exists>fs. fsys = Dir fs \<and>
         Library_Files (fst (NewLibrary fsys root' extensions playlistExtensions)) =
           map (\<lambda>f. Join [root', Name f])
             (filter (\<lambda>f. \<not> IsDir f \<and> extension (Name f) \<in> set extensions) fs)"
    by (simp add: Library_Files_media_paths)
next
  have b: "Base (Join [root', ''a.mp3'']) = ''a.mp3''" "Base (Join [root', ''b.m3u'']) = ''b.m3u''"
    by (simp_all add: Base_Join valid_name_def)
  show n: "NewLibrary (Dir [(''a.mp3'', File), (''b.m3u'', File), (''c.png'', File)])
       root' [''mp3''] [''m3u''] =
     (Library
        [MediaFile \<lparr>path = Join [root', ''a.mp3''], title = ''a.mp3''\<rparr>,
         PlaylistFile \<lparr>paths = [Join [root', ''b.m3u'']], title = ''b.m3u''\<rparr>]
        [] root',
      None,
      [(root', Dir [(''a.mp3'', File), (''b.m3u'', File), (''c.png'', File)])])"
    by (simp add: example_listing b)
  show "Library_Files (fst (NewLibrary (Dir [(''a.mp3'', File), (''b.m3u'', File), (''c.png'', File)])
       root' [''mp3''] [''m3u''])) = [Join [root', ''a.mp3'']]"
    by (simp add: n Library_Files_def)
next
  show "Library_Files (fst (NewLibrary (Dir [(''a.mp3'', File), (''b.m3u'', File), (''c.png'', File)])
       ''/music'' [''mp3''] [''m3u''])) = [''/music/a.mp3'']"
    by code_simp
qed

theorem Files_lists_direct_media_files_witness:
  "fst (snd (NewLibrary
      (Dir [(''a.mp3'', File), (''b'', Dir [(''x.mp3'', File)]), (''c.m3u'', File),
            (''e.png'', File), (''f.mp3'', File)])
      ''/music'' [''mp3''] [''m3u''])) = None \<and>
   Library_Files (fst (NewLibrary
      (Dir [(''a.mp3'', File), (''b'', Dir [(''x.mp3'', File)]), (''c.m3u'', File),
            (''e.png'', File), (''f.mp3'', File)])
      ''/music'' [''mp3''] [''m3u''])) =
     map (\<lambda>f. Join [''/music'', Name f])
       (filter (\<lambda>f. \<not> IsDir f \<and> extension (Name f) \<in> set [''mp3''])
          [(''a.mp3'', File), (''b'', Dir [(''x.mp3'', File)]), (''c.m3u'', File),
           (''e.png'', File), (''f.mp3'', File)]) \<and>
   Library_Files (fst (NewLibrary
      (Dir [(''a.mp3'', File), (''b'', Dir [(''x.mp3'', File)]), (''c.m3u'', File),
            (''e.png'', File), (''f.mp3'', File)])
      ''/music'' [''mp3''] [''m3u''])) = [''/music/a.mp3'', ''/music/f.mp3'']"
proof -
  have v: "Library_Files (fst (NewLibrary
      (Dir [(''a.mp3'', File), (''b'', Dir [(''x.mp3'', File)]), (''c.m3u'', File),
            (''e.png'', File), (''f.mp3'', File)])
      ''/music'' [''mp3''] [''m3u''])) = [''/music/a.mp3'', ''/music/f.mp3'']"
    by code_simp
  have h: "fst (snd (NewLibrary
      (Dir [(''a.mp3'', File), (''b'', Dir [(''x.mp3'', File)]), (''c.m3u'', File),
            (''e.png'', File), (''f.mp3'', File)])
      ''/music'' [''mp3''] [''m3u''])) = None"
    by code_simp
  from Files_lists_direct_media_files [of "Library [] [] []"
      "Dir [(''a.mp3'', File), (''b'', Dir [(''x.mp3'', File)]), (''c.m3u'', File),
            (''e.png'', File), (''f.mp3'', File)]" "''/music''" "[''mp3'']" "[''m3u'']"] h
  obtain fs where
    d: "Dir [(''a.mp3'', File), (''b'', Dir [(''x.mp3'', File)]), (''c.m3u'', File),
            (''e.png'', File), (''f.mp3'', File)] = Dir fs"
    and f: "Library_Files (fst (NewLibrary
      (Dir [(''a.mp3'', File), (''b'', Dir [(''x.mp3'', File)]), (''c.m3u'', File),
            (''e.png'', File), (''f.mp3'', File)])
      ''/music'' [''mp3''] [''m3u''])) =
     map (\<lambda>f. Join [''/music'', Name f])
       (filter (\<lambda>f. \<not> IsDir f \<and> extension (Name f) \<in> set [''mp3'']) fs)"
    by blast
  from d have "fs = [(''a.mp3'', File), (''b'', Dir [(''x.mp3'', File)]), (''c.m3u'', File),
            (''e.png'', File), (''f.mp3'', File)]"
    by (simp only: fsnode.inject)
  with f h v show ?thesis
    by (simp only: simp_thms)
qed

text \<open>
  C5: the extension that \<open>NewLibrary\<close> takes from a file name with \<open>strings.Cut\<close> is the
  text after the first dot, and the empty string when the name has no dot. That
  extension alone classifies every file of the listing. When a construction succeeds,
  \<open>entries\<close> is what the files of the listing contribute, each by its extension: a media
  entry when the extension is a media extension, a playlist entry when it is a playlist
  extension, nothing otherwise. So, for a listing of proper file names and a file of it:
  its media entry is in \<open>entries\<close>, and its path in \<open>Files\<close>, exactly when its extension
  is a media extension; its playlist entry is in \<open>entries\<close> exactly when its extension
  is a playlist extension; and some entry carries its path exactly when its extension is
  in one of the two tables. With the empty string among the media extensions, a file
  named radio in the listing is a media entry, and its path is in \<open>Files\<close>.
\<close>

theorem extension_after_first_dot:
  "fst (snd (Cut n ''.'')) = extension n \<and>
   (CHR ''.'' \<notin> set a \<longrightarrow> Cut (a @ ''.'' @ b) ''.'' = (a, b, True)) \<and>
   (CHR ''.'' \<notin> set n \<longrightarrow> Cut n ''.'' = (n, [], False)) \<and>
   (fst (snd (NewLibrary (Dir fs) root' extensions playlistExtensions)) = None \<longrightarrow>
      entries (fst (NewLibrary (Dir fs) root' extensions playlistExtensions)) =
        concat (map (entry_for root' (set extensions) (set playlistExtensions)) fs)) \<and>
   (fst (snd (NewLibrary (Dir fs) root' extensions playlistExtensions)) = None \<and>
    list_all (\<lambda>g. valid_name (Name g)) fs \<and> g \<in> set fs \<and> \<not> IsDir g \<longrightarrow>
      (MediaFile \<lparr>path = Join [root', Name g], title = Base (Join [root', Name g])\<rparr>
         \<in> set (entries (fst (NewLibrary (Dir fs) root' extensions playlistExtensions)))) =
        (extension (Name g) \<in> set extensions) \<and>
      (Join [root', Name g]
         \<in> set (Library_Files (fst (NewLibrary (Dir fs) root' extensions playlistExtensions)))) =
        (extension (Name g) \<in> set extensions) \<and>
      (PlaylistFile \<lparr>paths = [Join [root', Name g]], title = Base (Join [root', Name g])\<rparr>
         \<in> set (entries (fst (NewLibrary (Dir fs) root' extensions playlistExtensions)))) =
        (extension (Name g) \<in> set playlistExtensions) \<and>
      (\<exists>e \<in> set (entries (fst (NewLibrary (Dir fs) root' extensions playlistExtensions))).
         Join [root', Name g] \<in> set (Files e)) =
        (extension (Name g) \<in> set extensions \<or> extension (Name g) \<in> set playlistExtensions)) \<and>
   (fst (snd (NewLibrary (Dir fs) root' extensions playlistExtensions)) = None \<and>
    f \<in> set fs \<and> \<not> IsDir f \<and> extension (Name f) \<in> set extensions \<longrightarrow>
      MediaFile \<lparr>path = Join [root', Name f], title = Base (Join [root', Name f])\<rparr>
        \<in> set (entries (fst (NewLibrary (Dir fs) root' extensions playlistExtensions))) \<and>
      Join [root', Name f]
        \<in> set (Library_Files (fst (NewLibrary (Dir fs) root' extensions playlistExtensions)))) \<and>
   (fst (snd (NewLibrary (Dir fs) root' extensions playlistExtensions)) = None \<and>
    (''radio'', File) \<in> set fs \<and> [] \<in> set extensions \<longrightarrow>
      MediaFile \<lparr>path = Join [root', ''radio''], title = ''radio''\<rparr>
        \<in> set (entries (fst (NewLibrary (Dir fs) root' extensions playlistExtensions))) \<and>
      Join [root', ''radio'']
        \<in> set (Library_Files (fst (NewLibrary (Dir fs) root' extensions playlistExtensions))))"
proof -
  have ent: "entries (fst (NewLibrary (Dir fs) root' extensions playlistExtensions)) =
         concat (map (entry_for root' (set extensions) (set playlistExtensions)) fs)"
    if ok: "fst (snd (NewLibrary (Dir fs) root' extensions playlistExtensions)) = None"
    using NewLibrary_success [OF ok] by auto
  have media: "MediaFile \<lparr>path = Join [root', Name f], title = Base (Join [root', Name f])\<rparr>
        \<in> set (entries (fst (NewLibrary (Dir fs) root' extensions playlistExtensions))) \<and>
      Join [root', Name f]
        \<in> set (Library_Files (fst (NewLibrary (Dir fs) root' extensions playlistExtensions)))"
    if ok: "fst (snd (NewLibrary (Dir fs) root' extensions playlistExtensions)) = None"
      and f: "f \<in> set fs" "\<not> IsDir f" "extension (Name f) \<in> set extensions" for f
  proof -
    from NewLibrary_None [OF ok] have d: "set extensions \<inter> set playlistExtensions = {}"
      by auto
    from f have "Join [root', Name f] \<in> set (map (\<lambda>f. Join [root', Name f])
        (filter (\<lambda>f. \<not> IsDir f \<and> extension (Name f) \<in> set extensions) fs))"
      by auto
    with media_entry_listed [OF f, of root' "set playlistExtensions"] ent [OF ok]
      media_paths_entries [OF d, of root' fs]
    show ?thesis
      by (simp add: Library_Files_media_paths)
  qed
  have radio: "MediaFile \<lparr>path = Join [root', ''radio''], title = ''radio''\<rparr>
        \<in> set (entries (fst (NewLibrary (Dir fs) root' extensions playlistExtensions))) \<and>
      Join [root', ''radio'']
        \<in> set (Library_Files (fst (NewLibrary (Dir fs) root' extensions playlistExtensions)))"
    if ok: "fst (snd (NewLibrary (Dir fs) root' extensions playlistExtensions)) = None"
      and f: "(''radio'', File) \<in> set fs" "[] \<in> set extensions"
  proof -
    have "extension (Name (''radio'', File)) = []" "\<not> IsDir (''radio'', File)"
      "Base (Join [root', ''radio'']) = ''radio''"
      by (simp_all add: extension_def Name_def Base_Join valid_name_def)
    with media [OF ok f(1)] f(2) show ?thesis
      by (simp add: Name_def)
  qed
  have exact: "(MediaFile \<lparr>path = Join [root', Name g], title = Base (Join [root', Name g])\<rparr>
         \<in> set (entries (fst (NewLibrary (Dir fs) root' extensions playlistExtensions)))) =
        (extension (Name g) \<in> set extensions) \<and>
      (Join [root', Name g]
         \<in> set (Library_Files (fst (NewLibrary (Dir fs) root' extensions playlistExtensions)))) =
        (extension (Name g) \<in> set extensions) \<and>
      (PlaylistFile \<lparr>paths = [Join [root', Name g]], title = Base (Join [root', Name g])\<rparr>
         \<in> set (entries (fst (NewLibrary (Dir fs) root' extensions playlistExtensions)))) =
        (extension (Name g) \<in> set playlistExtensions) \<and>
      (\<exists>e \<in> set (entries (fst (NewLibrary (Dir fs) root' extensions playlistExtensions))).
         Join [root', Name g] \<in> set (Files e)) =
        (extension (Name g) \<in> set extensions \<or> extension (Name g) \<in> set playlistExtensions)"
    if ok: "fst (snd (NewLibrary (Dir fs) root' extensions playlistExtensions)) = None"
      and v: "list_all (\<lambda>g. valid_name (Name g)) fs" and g: "g \<in> set fs" "\<not> IsDir g"
  proof -
    from NewLibrary_None [OF ok] have d: "set extensions \<inter> set playlistExtensions = {}"
      by auto
    from classification [OF v d g, of root'] Files_path_iff [OF v d g, of root'] show ?thesis
      unfolding ent [OF ok] Library_Files_media_paths by blast
  qed
  have c1: "fst (snd (Cut n ''.'')) = extension n"
    by (rule Cut_extension)
  have c2: "CHR ''.'' \<notin> set a \<longrightarrow> Cut (a @ ''.'' @ b) ''.'' = (a, b, True)"
    using Cut_first_dot [of a b] by blast
  have c3: "CHR ''.'' \<notin> set n \<longrightarrow> Cut n ''.'' = (n, [], False)"
    by (simp add: Cut_no_dot)
  have c4: "fst (snd (NewLibrary (Dir fs) root' extensions playlistExtensions)) = None \<longrightarrow>
      entries (fst (NewLibrary (Dir fs) root' extensions playlistExtensions)) =
        concat (map (entry_for root' (set extensions) (set playlistExtensions)) fs)"
    using ent by blast
  have c5: "fst (snd (NewLibrary (Dir fs) root' extensions playlistExtensions)) = None \<and>
    list_all (\<lambda>g. valid_name (Name g)) fs \<and> g \<in> set fs \<and> \<not> IsDir g \<longrightarrow>
      (MediaFile \<lparr>path = Join [root', Name g], title = Base (Join [root', Name g])\<rparr>
         \<in> set (entries (fst (NewLibrary (Dir fs) root' extensions playlistExtensions)))) =
        (extension (Name g) \<in> set extensions) \<and>
      (Join [root', Name g]
         \<in> set (Library_Files (fst (NewLibrary (Dir fs) root' extensions playlistExtensions)))) =
        (extension (Name g) \<in> set extensions) \<and>
      (PlaylistFile \<lparr>paths = [Join [root', Name g]], title = Base (Join [root', Name g])\<rparr>
         \<in> set (entries (fst (NewLibrary (Dir fs) root' extensions playlistExtensions)))) =
        (extension (Name g) \<in> set playlistExtensions) \<and>
      (\<exists>e \<in> set (entries (fst (NewLibrary (Dir fs) root' extensions playlistExtensions))).
         Join [root', Name g] \<in> set (Files e)) =
        (extension (Name g) \<in> set extensions \<or> extension (Name g) \<in> set playlistExtensions)"
    using exact by blast
  have c6: "fst (snd (NewLibrary (Dir fs) root' extensions playlistExtensions)) = None \<and>
    f \<in> set fs \<and> \<not> IsDir f \<and> extension (Name f) \<in> set extensions \<longrightarrow>
      MediaFile \<lparr>path = Join [root', Name f], title = Base (Join [root', Name f])\<rparr>
        \<in> set (entries (fst (NewLibrary (Dir fs) root' extensions playlistExtensions))) \<and>
      Join [root', Name f]
        \<in> set (Library_Files (fst (NewLibrary (Dir fs) root' extensions playlistExtensions)))"
    using media [of f] by blast
  have c7: "fst (snd (NewLibrary (Dir fs) root' extensions playlistExtensions)) = None \<and>
    (''radio'', File) \<in> set fs \<and> [] \<in> set extensions \<longrightarrow>
      MediaFile \<lparr>path = Join [root', ''radio''], title = ''radio''\<rparr>
        \<in> set (entries (fst (NewLibrary (Dir fs) root' extensions playlistExtensions))) \<and>
      Join [root', ''radio'']
        \<in> set (Library_Files (fst (NewLibrary (Dir fs) root' extensions playlistExtensions)))"
    using radio by blast
  show ?thesis
    by (rule conjI [OF c1 conjI [OF c2 conjI [OF c3 conjI [OF c4 conjI [OF c5 conjI [OF c6 c7]]]]]])
qed

theorem extension_after_first_dot_witness:
  "CHR ''.'' \<notin> set ''a'' \<and>
   Cut (''a'' @ ''.'' @ ''tar.gz'') ''.'' = (''a'', ''tar.gz'', True) \<and>
   CHR ''.'' \<notin> set ''radio'' \<and>
   Cut ''radio'' ''.'' = (''radio'', [], False) \<and>
   fst (snd (NewLibrary (Dir [(''a.tar.gz'', File), (''radio'', File), (''b.gz'', File), (''c.m3u'', File)])
        ''/music'' ['''', ''tar.gz''] [''m3u''])) = None \<and>
   entries (fst (NewLibrary (Dir [(''a.tar.gz'', File), (''radio'', File), (''b.gz'', File), (''c.m3u'', File)])
        ''/music'' ['''', ''tar.gz''] [''m3u''])) =
     [MediaFile \<lparr>path = ''/music/a.tar.gz'', title = ''a.tar.gz''\<rparr>,
      MediaFile \<lparr>path = ''/music/radio'', title = ''radio''\<rparr>,
      PlaylistFile \<lparr>paths = [''/music/c.m3u''], title = ''c.m3u''\<rparr>] \<and>
   list_all (\<lambda>g. valid_name (Name g)) [(''a.tar.gz'', File), (''radio'', File), (''b.gz'', File), (''c.m3u'', File)] \<and>
   (''b.gz'', File) \<in> set [(''a.tar.gz'', File), (''radio'', File), (''b.gz'', File), (''c.m3u'', File)] \<and>
   \<not> IsDir (''b.gz'', File) \<and>
   MediaFile \<lparr>path = Join [''/music'', Name (''b.gz'', File)], title = Base (Join [''/music'', Name (''b.gz'', File)])\<rparr>
     \<notin> set (entries (fst (NewLibrary (Dir [(''a.tar.gz'', File), (''radio'', File), (''b.gz'', File), (''c.m3u'', File)])
        ''/music'' ['''', ''tar.gz''] [''m3u'']))) \<and>
   Join [''/music'', Name (''b.gz'', File)] \<notin> set (Library_Files (fst (NewLibrary (Dir [(''a.tar.gz'', File), (''radio'', File), (''b.gz'', File), (''c.m3u'', File)])
        ''/music'' ['''', ''tar.gz''] [''m3u'']))) \<and>
   PlaylistFile \<lparr>paths = [Join [''/music'', Name (''b.gz'', File)]], title = Base (Join [''/music'', Name (''b.gz'', File)])\<rparr>
     \<notin> set (entries (fst (NewLibrary (Dir [(''a.tar.gz'', File), (''radio'', File), (''b.gz'', File), (''c.m3u'', File)])
        ''/music'' ['''', ''tar.gz''] [''m3u'']))) \<and>
   (\<not> (\<exists>e \<in> set (entries (fst (NewLibrary (Dir [(''a.tar.gz'', File), (''radio'', File), (''b.gz'', File), (''c.m3u'', File)])
        ''/music'' ['''', ''tar.gz''] [''m3u'']))).
      Join [''/music'', Name (''b.gz'', File)] \<in> set (Files e))) \<and>
   (''c.m3u'', File) \<in> set [(''a.tar.gz'', File), (''radio'', File), (''b.gz'', File), (''c.m3u'', File)] \<and>
   \<not> IsDir (''c.m3u'', File) \<and>
   PlaylistFile \<lparr>paths = [Join [''/music'', Name (''c.m3u'', File)]], title = Base (Join [''/music'', Name (''c.m3u'', File)])\<rparr>
     \<in> set (entries (fst (NewLibrary (Dir [(''a.tar.gz'', File), (''radio'', File), (''b.gz'', File), (''c.m3u'', File)])
        ''/music'' ['''', ''tar.gz''] [''m3u'']))) \<and>
   Join [''/music'', Name (''c.m3u'', File)] \<notin> set (Library_Files (fst (NewLibrary (Dir [(''a.tar.gz'', File), (''radio'', File), (''b.gz'', File), (''c.m3u'', File)])
        ''/music'' ['''', ''tar.gz''] [''m3u'']))) \<and>
   (''a.tar.gz'', File) \<in> set [(''a.tar.gz'', File), (''radio'', File), (''b.gz'', File), (''c.m3u'', File)] \<and>
   \<not> IsDir (''a.tar.gz'', File) \<and>
   extension (Name (''a.tar.gz'', File)) \<in> set ['''', ''tar.gz''] \<and>
   Join [''/music'', Name (''a.tar.gz'', File)] \<in> set (Library_Files (fst (NewLibrary (Dir [(''a.tar.gz'', File), (''radio'', File), (''b.gz'', File), (''c.m3u'', File)])
        ''/music'' ['''', ''tar.gz''] [''m3u'']))) \<and>
   (''radio'', File) \<in> set [(''a.tar.gz'', File), (''radio'', File), (''b.gz'', File), (''c.m3u'', File)] \<and>
   [] \<in> set ['''', ''tar.gz''] \<and>
   Join [''/music'', ''radio''] \<in> set (Library_Files (fst (NewLibrary (Dir [(''a.tar.gz'', File), (''radio'', File), (''b.gz'', File), (''c.m3u'', File)])
        ''/music'' ['''', ''tar.gz''] [''m3u'']))) \<and>
   Library_Files (fst (NewLibrary (Dir [(''a.tar.gz'', File), (''radio'', File), (''b.gz'', File), (''c.m3u'', File)])
        ''/music'' ['''', ''tar.gz''] [''m3u''])) = [''/music/a.tar.gz'', ''/music/radio'']"
proof -
  have h1: "CHR ''.'' \<notin> set ''a''"
    by simp
  have h2: "CHR ''.'' \<notin> set ''radio''"
    by simp
  have h3: "fst (snd (NewLibrary (Dir [(''a.tar.gz'', File), (''radio'', File), (''b.gz'', File), (''c.m3u'', File)])
        ''/music'' ['''', ''tar.gz''] [''m3u''])) = None"
    by code_simp
  have v: "entries (fst (NewLibrary (Dir [(''a.tar.gz'', File), (''radio'', File), (''b.gz'', File), (''c.m3u'', File)])
        ''/music'' ['''', ''tar.gz''] [''m3u''])) =
     [MediaFile \<lparr>path = ''/music/a.tar.gz'', title = ''a.tar.gz''\<rparr>,
      MediaFile \<lparr>path = ''/music/radio'', title = ''radio''\<rparr>,
      PlaylistFile \<lparr>paths = [''/music/c.m3u''], title = ''c.m3u''\<rparr>]"
    by code_simp
  have w: "Library_Files (fst (NewLibrary (Dir [(''a.tar.gz'', File), (''radio'', File), (''b.gz'', File), (''c.m3u'', File)])
        ''/music'' ['''', ''tar.gz''] [''m3u''])) = [''/music/a.tar.gz'', ''/music/radio'']"
    by code_simp
  have h4: "list_all (\<lambda>g. valid_name (Name g)) [(''a.tar.gz'', File), (''radio'', File), (''b.gz'', File), (''c.m3u'', File)]"
    by (simp add: valid_name_def Name_def)
  have h5: "(''b.gz'', File) \<in> set [(''a.tar.gz'', File), (''radio'', File), (''b.gz'', File), (''c.m3u'', File)]"
    by simp
  have h6: "\<not> IsDir (''b.gz'', File)"
    by simp
  have h7: "(''c.m3u'', File) \<in> set [(''a.tar.gz'', File), (''radio'', File), (''b.gz'', File), (''c.m3u'', File)]"
    by simp
  have h8: "\<not> IsDir (''c.m3u'', File)"
    by simp
  have h9: "(''a.tar.gz'', File) \<in> set [(''a.tar.gz'', File), (''radio'', File), (''b.gz'', File), (''c.m3u'', File)]"
    by simp
  have h10: "\<not> IsDir (''a.tar.gz'', File)"
    by simp
  have h12: "(''radio'', File) \<in> set [(''a.tar.gz'', File), (''radio'', File), (''b.gz'', File), (''c.m3u'', File)]"
    by simp
  have h13: "[] \<in> set ['''', ''tar.gz'']"
    by simp
  have h11: "extension (Name (''a.tar.gz'', File)) \<in> set ['''', ''tar.gz'']"
    by (simp add: extension_def Name_def)
  have x1: "extension (Name (''b.gz'', File)) \<notin> set ['''', ''tar.gz'']"
    and x2: "extension (Name (''b.gz'', File)) \<notin> set [''m3u'']"
    and x3: "extension (Name (''c.m3u'', File)) \<notin> set ['''', ''tar.gz'']"
    and x4: "extension (Name (''c.m3u'', File)) \<in> set [''m3u'']"
    by (simp_all add: extension_def Name_def)
  note tb = extension_after_first_dot [of "''radio''" "''a''" "''tar.gz''"
      "[(''a.tar.gz'', File), (''radio'', File), (''b.gz'', File), (''c.m3u'', File)]" "''/music''"
      "['''', ''tar.gz'']" "[''m3u'']" "(''b.gz'', File)" "(''a.tar.gz'', File)"]
  note tc = extension_after_first_dot [of "''radio''" "''a''" "''tar.gz''"
      "[(''a.tar.gz'', File), (''radio'', File), (''b.gz'', File), (''c.m3u'', File)]" "''/music''"
      "['''', ''tar.gz'']" "[''m3u'']" "(''c.m3u'', File)" "(''a.tar.gz'', File)"]
  from tb h1
  have c1: "Cut (''a'' @ ''.'' @ ''tar.gz'') ''.'' = (''a'', ''tar.gz'', True)"
    by blast
  from tb h2
  have c2: "Cut ''radio'' ''.'' = (''radio'', [], False)"
    by blast
  from tb h3 h4 h5 h6 x1
  have b1: "MediaFile \<lparr>path = Join [''/music'', Name (''b.gz'', File)], title = Base (Join [''/music'', Name (''b.gz'', File)])\<rparr>
     \<notin> set (entries (fst (NewLibrary (Dir [(''a.tar.gz'', File), (''radio'', File), (''b.gz'', File), (''c.m3u'', File)])
        ''/music'' ['''', ''tar.gz''] [''m3u''])))"
    by blast
  from tb h3 h4 h5 h6 x1
  have b2: "Join [''/music'', Name (''b.gz'', File)] \<notin> set (Library_Files (fst (NewLibrary (Dir [(''a.tar.gz'', File), (''radio'', File), (''b.gz'', File), (''c.m3u'', File)])
        ''/music'' ['''', ''tar.gz''] [''m3u''])))"
    by blast
  from tb h3 h4 h5 h6 x2
  have b3: "PlaylistFile \<lparr>paths = [Join [''/music'', Name (''b.gz'', File)]], title = Base (Join [''/music'', Name (''b.gz'', File)])\<rparr>
     \<notin> set (entries (fst (NewLibrary (Dir [(''a.tar.gz'', File), (''radio'', File), (''b.gz'', File), (''c.m3u'', File)])
        ''/music'' ['''', ''tar.gz''] [''m3u''])))"
    by blast
  from tb h3 h4 h5 h6 x1 x2
  have b4: "\<not> (\<exists>e \<in> set (entries (fst (NewLibrary (Dir [(''a.tar.gz'', File), (''radio'', File), (''b.gz'', File), (''c.m3u'', File)])
        ''/music'' ['''', ''tar.gz''] [''m3u'']))).
      Join [''/music'', Name (''b.gz'', File)] \<in> set (Files e))"
    by blast
  from tc h3 h4 h7 h8 x4
  have p1: "PlaylistFile \<lparr>paths = [Join [''/music'', Name (''c.m3u'', File)]], title = Base (Join [''/music'', Name (''c.m3u'', File)])\<rparr>
     \<in> set (entries (fst (NewLibrary (Dir [(''a.tar.gz'', File), (''radio'', File), (''b.gz'', File), (''c.m3u'', File)])
        ''/music'' ['''', ''tar.gz''] [''m3u''])))"
    by blast
  from tc h3 h4 h7 h8 x3
  have p2: "Join [''/music'', Name (''c.m3u'', File)] \<notin> set (Library_Files (fst (NewLibrary (Dir [(''a.tar.gz'', File), (''radio'', File), (''b.gz'', File), (''c.m3u'', File)])
        ''/music'' ['''', ''tar.gz''] [''m3u''])))"
    by blast
  from tb h3 h9 h10 h11
  have m1: "Join [''/music'', Name (''a.tar.gz'', File)] \<in> set (Library_Files (fst (NewLibrary (Dir [(''a.tar.gz'', File), (''radio'', File), (''b.gz'', File), (''c.m3u'', File)])
        ''/music'' ['''', ''tar.gz''] [''m3u''])))"
    by blast
  from tb h3 h12 h13
  have r1: "Join [''/music'', ''radio''] \<in> set (Library_Files (fst (NewLibrary (Dir [(''a.tar.gz'', File), (''radio'', File), (''b.gz'', File), (''c.m3u'', File)])
        ''/music'' ['''', ''tar.gz''] [''m3u''])))"
    by blast
  from h1 c1 h2 c2 h3 v h4 h5 h6 b1 b2 b3 b4 h7 h8 p1 p2 h9 h10 h11 m1 h12 h13 r1 w show ?thesis
    by (simp only: simp_thms)
qed

text \<open>
  C9: when the build of a subdirectory of the listing fails, the elements before it
  having been processed without failure, \<open>NewLibrary\<close> returns the error of the
  subdirectory, wrapped, together with a library that is not reset: its \<open>entries\<close> are
  the entries of the files before the failing subdirectory and its \<open>nested\<close> are the
  libraries built for the subdirectories before it.
\<close>

theorem failure_keeps_partial_library:
  assumes "extensions \<noteq> []" and "set playlistExtensions \<inter> set extensions = {}"
    and "list_all (\<lambda>g. IsDir g \<longrightarrow> child_ok root' extensions playlistExtensions g) pre"
    and "IsDir f"
    and "fst (snd (child root' extensions playlistExtensions f)) = Some err"
  shows "fst (snd (NewLibrary (Dir (pre @ f # post)) root' extensions playlistExtensions)) =
       Some (Errorf ''open library %s: %w'' [Str root', Err err]) \<and>
     fst (NewLibrary (Dir (pre @ f # post)) root' extensions playlistExtensions) =
       Library (concat (map (entry_for root' (set extensions) (set playlistExtensions)) pre))
         (map (\<lambda>g. fst (child root' extensions playlistExtensions g)) (filter IsDir pre)) root'"
  by (simp add: NewLibrary_failure [OF assms])

theorem failure_keeps_partial_library_witness:
  "[''mp3''] \<noteq> [] \<and> set [''m3u''] \<inter> set [''mp3''] = {} \<and>
   list_all (\<lambda>g. IsDir g \<longrightarrow> child_ok ''/music'' [''mp3''] [''m3u''] g)
     [(''a.mp3'', File), (''b'', Dir [(''x.mp3'', File)])] \<and>
   IsDir (''c'', Dir []) \<and>
   fst (snd (child ''/music'' [''mp3''] [''m3u''] (''c'', Dir []))) = Some (empty_failure ''/music/c'') \<and>
   fst (snd (NewLibrary (Dir ([(''a.mp3'', File), (''b'', Dir [(''x.mp3'', File)])] @
        (''c'', Dir []) # [(''d.mp3'', File)])) ''/music'' [''mp3''] [''m3u''])) =
     Some (Errorf ''open library %s: %w'' [Str ''/music'', Err (empty_failure ''/music/c'')]) \<and>
   fst (NewLibrary (Dir ([(''a.mp3'', File), (''b'', Dir [(''x.mp3'', File)])] @
        (''c'', Dir []) # [(''d.mp3'', File)])) ''/music'' [''mp3''] [''m3u'']) =
     Library [MediaFile \<lparr>path = ''/music/a.mp3'', title = ''a.mp3''\<rparr>]
       [Library [MediaFile \<lparr>path = ''/music/b/x.mp3'', title = ''x.mp3''\<rparr>] [] ''/music/b'']
       ''/music''"
proof -
  have h1: "[''mp3''] \<noteq> []" and h2: "set [''m3u''] \<inter> set [''mp3''] = {}"
    by simp_all
  have h3: "list_all (\<lambda>g. IsDir g \<longrightarrow> child_ok ''/music'' [''mp3''] [''m3u''] g)
     [(''a.mp3'', File), (''b'', Dir [(''x.mp3'', File)])]"
    by code_simp
  have h4: "IsDir (''c'', Dir [])"
    by simp
  have h5: "fst (snd (child ''/music'' [''mp3''] [''m3u''] (''c'', Dir []))) =
      Some (empty_failure ''/music/c'')"
    by code_simp
  have v: "Library (concat (map (entry_for ''/music'' (set [''mp3'']) (set [''m3u'']))
            [(''a.mp3'', File), (''b'', Dir [(''x.mp3'', File)])]))
         (map (\<lambda>g. fst (child ''/music'' [''mp3''] [''m3u''] g))
            (filter IsDir [(''a.mp3'', File), (''b'', Dir [(''x.mp3'', File)])])) ''/music'' =
     Library [MediaFile \<lparr>path = ''/music/a.mp3'', title = ''a.mp3''\<rparr>]
       [Library [MediaFile \<lparr>path = ''/music/b/x.mp3'', title = ''x.mp3''\<rparr>] [] ''/music/b'']
       ''/music''"
    by code_simp
  from failure_keeps_partial_library [OF h1 h2 h3 h4 h5, of "[(''d.mp3'', File)]"] h1 h2 h3 h4 h5 v
  show ?thesis
    by (simp only: simp_thms)
qed

text \<open>
  C3, as the code has it. Take a directory whose children are all files of an unknown
  extension or further directories holding, at every depth, only such children. When it
  and every directory below it has at least one entry, its library is built, with no
  entries at any depth. When it or a directory below it has no entries, its construction
  fails: the chain of wrapped errors ends at the EmptyLibrary failure of a directory
  without entries, and reading that directory was the last call of \<open>os.ReadDir\<close>.
\<close>

theorem unrecognised_directory_accepted_unless_empty:
  assumes "extensions \<noteq> []" and "set playlistExtensions \<inter> set extensions = {}"
    and "only_unrecognised (set extensions) (set playlistExtensions) (Dir fs) n"
  shows "(unplayable (set extensions) (set playlistExtensions) (Dir fs) n \<longrightarrow>
       fst (snd (NewLibrary (Dir fs) root' extensions playlistExtensions)) = None \<and>
       no_entries (fst (NewLibrary (Dir fs) root' extensions playlistExtensions))) \<and>
     (\<not> unplayable (set extensions) (set playlistExtensions) (Dir fs) n \<longrightarrow>
       (\<exists>e p. fst (snd (NewLibrary (Dir fs) root' extensions playlistExtensions)) = Some e \<and>
          cause e = empty_failure p \<and>
          last (snd (snd (NewLibrary (Dir fs) root' extensions playlistExtensions))) = (p, Dir [])))"
proof (intro conjI impI)
  assume u: "unplayable (set extensions) (set playlistExtensions) (Dir fs) n"
  from unplayable_builds [OF assms(1,2) u, of root']
  show "fst (snd (NewLibrary (Dir fs) root' extensions playlistExtensions)) = None"
    and "no_entries (fst (NewLibrary (Dir fs) root' extensions playlistExtensions))"
    by simp_all
next
  assume u: "\<not> unplayable (set extensions) (set playlistExtensions) (Dir fs) n"
  from only_unrecognised_fails [OF assms u, of root']
  show "\<exists>e p. fst (snd (NewLibrary (Dir fs) root' extensions playlistExtensions)) = Some e \<and>
          cause e = empty_failure p \<and>
          last (snd (snd (NewLibrary (Dir fs) root' extensions playlistExtensions))) = (p, Dir [])"
    by blast
qed

theorem unrecognised_directory_accepted_unless_empty_witness:
  "[''mp3''] \<noteq> [] \<and> set [''m3u''] \<inter> set [''mp3''] = {} \<and>
   only_unrecognised (set [''mp3'']) (set [''m3u''])
     (Dir [(''cover.png'', File), (''scans'', Dir [(''back.png'', File), (''notes'', File)])]) ''sub'' \<and>
   unplayable (set [''mp3'']) (set [''m3u''])
     (Dir [(''cover.png'', File), (''scans'', Dir [(''back.png'', File), (''notes'', File)])]) ''sub'' \<and>
   NewLibrary (Dir [(''cover.png'', File), (''scans'', Dir [(''back.png'', File), (''notes'', File)])])
       ''/music/sub'' [''mp3''] [''m3u''] =
     (Library [] [Library [] [] ''/music/sub/scans''] ''/music/sub'', None,
      [(''/music/sub'', Dir [(''cover.png'', File), (''scans'', Dir [(''back.png'', File), (''notes'', File)])]),
       (''/music/sub/scans'', Dir [(''back.png'', File), (''notes'', File)])]) \<and>
   no_entries (fst (NewLibrary
       (Dir [(''cover.png'', File), (''scans'', Dir [(''back.png'', File), (''notes'', File)])])
       ''/music/sub'' [''mp3''] [''m3u''])) \<and>
   only_unrecognised (set [''mp3'']) (set [''m3u''])
     (Dir [(''cover.png'', File), (''scans'', Dir [(''old'', Dir [])]), (''more'', Dir [])]) ''sub'' \<and>
   \<not> unplayable (set [''mp3'']) (set [''m3u''])
     (Dir [(''cover.png'', File), (''scans'', Dir [(''old'', Dir [])]), (''more'', Dir [])]) ''sub'' \<and>
   (\<exists>e. fst (snd (NewLibrary
       (Dir [(''cover.png'', File), (''scans'', Dir [(''old'', Dir [])]), (''more'', Dir [])])
       ''/music/sub'' [''mp3''] [''m3u''])) = Some e \<and>
     cause e = empty_failure ''/music/sub/scans/old'')"
proof -
  have h1: "[''mp3''] \<noteq> []" and h2: "set [''m3u''] \<inter> set [''mp3''] = {}"
    by simp_all
  have h3: "only_unrecognised (set [''mp3'']) (set [''m3u''])
     (Dir [(''cover.png'', File), (''scans'', Dir [(''back.png'', File), (''notes'', File)])]) ''sub''"
    by (simp add: extension_def)
  have h4: "unplayable (set [''mp3'']) (set [''m3u''])
     (Dir [(''cover.png'', File), (''scans'', Dir [(''back.png'', File), (''notes'', File)])]) ''sub''"
    by (simp add: extension_def)
  have v: "NewLibrary (Dir [(''cover.png'', File), (''scans'', Dir [(''back.png'', File), (''notes'', File)])])
       ''/music/sub'' [''mp3''] [''m3u''] =
     (Library [] [Library [] [] ''/music/sub/scans''] ''/music/sub'', None,
      [(''/music/sub'', Dir [(''cover.png'', File), (''scans'', Dir [(''back.png'', File), (''notes'', File)])]),
       (''/music/sub/scans'', Dir [(''back.png'', File), (''notes'', File)])])"
    by code_simp
  from unrecognised_directory_accepted_unless_empty [OF h1 h2 h3, of "''/music/sub''"] h4
  have a: "no_entries (fst (NewLibrary
       (Dir [(''cover.png'', File), (''scans'', Dir [(''back.png'', File), (''notes'', File)])])
       ''/music/sub'' [''mp3''] [''m3u'']))"
    by blast
  have h5: "only_unrecognised (set [''mp3'']) (set [''m3u''])
     (Dir [(''cover.png'', File), (''scans'', Dir [(''old'', Dir [])]), (''more'', Dir [])]) ''sub''"
    by (simp add: extension_def)
  have h6: "\<not> unplayable (set [''mp3'']) (set [''m3u''])
     (Dir [(''cover.png'', File), (''scans'', Dir [(''old'', Dir [])]), (''more'', Dir [])]) ''sub''"
    by (simp add: extension_def)
  have l: "last (snd (snd (NewLibrary
       (Dir [(''cover.png'', File), (''scans'', Dir [(''old'', Dir [])]), (''more'', Dir [])])
       ''/music/sub'' [''mp3''] [''m3u'']))) = (''/music/sub/scans/old'', Dir [])"
    by code_simp
  from unrecognised_directory_accepted_unless_empty [OF h1 h2 h5, of "''/music/sub''"] h6 l
  have b: "\<exists>e. fst (snd (NewLibrary
       (Dir [(''cover.png'', File), (''scans'', Dir [(''old'', Dir [])]), (''more'', Dir [])])
       ''/music/sub'' [''mp3''] [''m3u''])) = Some e \<and>
     cause e = empty_failure ''/music/sub/scans/old''"
    by auto
  from h1 h2 h3 h4 v a h5 h6 b show ?thesis
    by (simp only: simp_thms)
qed

text \<open>
  C3 as the specification states it fails on the code: a sub-library whose only child
  is a further-nested directory without entries is not accepted. Its construction fails
  with the EmptyLibrary failure of that directory, and so does the construction of the
  library above it.
\<close>

theorem empty_subdirectory_rejected_counterexample:
  "NewLibrary (Dir [(''sub'', Dir [(''empty'', Dir [])])]) ''/music'' [''mp3''] [''m3u''] =
     (Library [] [] ''/music'',
      Some (Errorf ''open library %s: %w''
        [Str ''/music'', Err (Errorf ''open library %s: %w''
          [Str ''/music/sub'', Err (Errorf ''open library %s: %s''
            [Str ''/music/sub/empty'', Err ErrEmptyLibrary])])]),
      [(''/music'', Dir [(''sub'', Dir [(''empty'', Dir [])])]),
       (''/music/sub'', Dir [(''empty'', Dir [])]),
       (''/music/sub/empty'', Dir [])]) \<and>
   fst (snd (NewLibrary (Dir [(''empty'', Dir [])]) ''/music/sub'' [''mp3''] [''m3u''])) \<noteq> None"
  by code_simp

text \<open>
  C4 on the code: the title of a playlist entry is the base name of its path, that is
  the whole file name with its extension. For a listing holding b.m3u, at any root, the
  playlist entry has the title b.m3u, not b.
\<close>

theorem playlist_title_keeps_extension:
  "map Title (entries (fst (NewLibrary (Dir [(''b.m3u'', File)]) root' [''mp3''] [''m3u'']))) =
     [''b.m3u''] \<and>
   entries (fst (NewLibrary (Dir [(''b.m3u'', File)]) ''/music'' [''mp3''] [''m3u''])) =
     [PlaylistFile \<lparr>paths = [''/music/b.m3u''], title = ''b.m3u''\<rparr>]"
proof
  have chk: "[''mp3''] \<noteq> []" "set [''m3u''] \<inter> set [''mp3''] = {}"
    by simp_all
  have "extension ''b.m3u'' = ''m3u''"
    by (simp add: extension_def)
  moreover have "Base (Join [root', ''b.m3u'']) = ''b.m3u''"
    by (simp add: Base_Join valid_name_def)
  ultimately show "map Title (entries (fst (NewLibrary (Dir [(''b.m3u'', File)]) root' [''mp3''] [''m3u'']))) =
     [''b.m3u'']"
    by (simp add: NewLibrary_checked [OF chk] loop_Cons entry_for_def Name_def Let_def
        playlistFile_Title_def)
  show "entries (fst (NewLibrary (Dir [(''b.m3u'', File)]) ''/music'' [''mp3''] [''m3u''])) =
     [PlaylistFile \<lparr>paths = [''/music/b.m3u''], title = ''b.m3u''\<rparr>]"
    by code_simp
qed

text \<open>
  C7 on the code: paths are the root joined with the names of the listing, and nothing
  makes them absolute. At the relative root music, the construction succeeds and the
  paths of the media entry, of \<open>Files\<close> and of the playlist entry are relative.
\<close>

theorem relative_root_gives_relative_paths:
  "NewLibrary (Dir [(''a.mp3'', File), (''b.m3u'', File)]) ''music'' [''mp3''] [''m3u''] =
     (Library
        [MediaFile \<lparr>path = ''music/a.mp3'', title = ''a.mp3''\<rparr>,
         PlaylistFile \<lparr>paths = [''music/b.m3u''], title = ''b.m3u''\<rparr>]
        [] ''music'',
      None, [(''music'', Dir [(''a.mp3'', File), (''b.m3u'', File)])]) \<and>
   Library_Files (fst (NewLibrary (Dir [(''a.mp3'', File), (''b.m3u'', File)]) ''music''
     [''mp3''] [''m3u''])) = [''music/a.mp3''] \<and>
   \<not> IsAbs ''music/a.mp3'' \<and> \<not> IsAbs ''music/b.m3u''"
  by code_simp

end
